theory Spec2Isabelle
  imports Main
begin

section \<open>JavaScript strings\<close>

text \<open>
  A JavaScript string is the list of its code units; \<open>length\<close> is its \<open>.length\<close>.
  The model keeps the code units below 256, so a string is a \<^typ>\<open>string\<close>.
  \<open>is_ws\<close> holds of the code units that \<open>String.prototype.trim\<close> and
  \<open>parseInt\<close> strip in that range: TAB, LF, VT, FF, CR, SPACE and NBSP.
\<close>

definition is_ws :: "char \<Rightarrow> bool" where
  "is_ws c = (c \<in> {CHR 0x09, CHR 0x0A, CHR 0x0B, CHR 0x0C, CHR 0x0D, CHR 0x20, CHR 0xA0})"

definition trim :: "string \<Rightarrow> string" where
  "trim s = rev (dropWhile is_ws (rev (dropWhile is_ws s)))"

text \<open>\<open>s.split(c)\<close> for a one-character separator; \<open>.pop()\<close> takes the last piece.\<close>

fun split_on :: "char \<Rightarrow> string \<Rightarrow> string list" where
  "split_on c [] = [[]]"
| "split_on c (x # xs) =
     (if x = c then [] # split_on c xs
      else (case split_on c xs of
              [] \<Rightarrow> [[x]]
            | y # ys \<Rightarrow> (x # y) # ys))"

definition split_pop :: "char \<Rightarrow> string \<Rightarrow> string" where
  "split_pop c s = last (split_on c s)"

text \<open>The decimal rendering of a natural number inside a template literal.\<close>

function show_nat :: "nat \<Rightarrow> string" where
  "show_nat n =
     (if n < 10 then [char_of (48 + n)]
      else show_nat (n div 10) @ [char_of (48 + n mod 10)])"
  by pat_completeness auto
termination
  by (relation "measure id") auto

subsection \<open>parseInt\<close>

text \<open>
  \<open>parseInt(s)\<close> with no radix: leading white space is skipped, one sign is read, a
  \<open>0x\<close> or \<open>0X\<close> prefix selects radix 16, and the longest run of digits is converted;
  with no digit the result is \<open>NaN\<close>. The model returns the exact integer (JavaScript
  rounds beyond \<open>2^53\<close>, far above every bound the result is compared with here).
\<close>

datatype number = NaN | Number int

definition digit_val :: "nat \<Rightarrow> char \<Rightarrow> nat option" where
  "digit_val radix c =
     (let k = (of_char c :: nat);
          v = (if 48 \<le> k \<and> k \<le> 57 then Some (k - 48)
               else if 97 \<le> k \<and> k \<le> 102 then Some (k - 87)
               else if 65 \<le> k \<and> k \<le> 70 then Some (k - 55)
               else None)
      in case v of
           None \<Rightarrow> None
         | Some d \<Rightarrow> if d < radix then Some d else None)"

fun digits_value :: "nat \<Rightarrow> nat \<Rightarrow> string \<Rightarrow> nat" where
  "digits_value radix acc [] = acc"
| "digits_value radix acc (c # cs) =
     (case digit_val radix c of
        None \<Rightarrow> acc
      | Some d \<Rightarrow> digits_value radix (acc * radix + d) cs)"

definition parse_digits :: "nat \<Rightarrow> string \<Rightarrow> nat option" where
  "parse_digits radix s =
     (case s of
        [] \<Rightarrow> None
      | c # cs \<Rightarrow> (case digit_val radix c of
                    None \<Rightarrow> None
                  | Some d \<Rightarrow> Some (digits_value radix 0 s)))"

definition parseInt :: "string \<Rightarrow> number" where
  "parseInt str =
     (let s = dropWhile is_ws str;
          neg = (s \<noteq> [] \<and> hd s = CHR ''-'');
          s1 = (if s \<noteq> [] \<and> (hd s = CHR ''+'' \<or> hd s = CHR ''-'') then tl s else s);
          hex = (length s1 \<ge> 2 \<and> (take 2 s1 = ''0x'' \<or> take 2 s1 = ''0X''));
          s2 = (if hex then drop 2 s1 else s1);
          radix = (if hex then 16 else 10)
      in case parse_digits radix s2 of
           None \<Rightarrow> NaN
         | Some v \<Rightarrow> Number (if neg then - int v else int v))"

section \<open>Validation schemas\<close>

text \<open>
  A schema check that fails adds an issue and parsing goes on; \<open>parse\<close> throws a
  \<open>ZodError\<close> holding every issue when there is one, and returns the normalised
  record otherwise. A message given in the source is kept in the issue.
\<close>

datatype issue_code = too_small | too_big | invalid_type

datatype issue = Issue (path: string) (code: issue_code) (message: "string option")

definition check_min :: "string \<Rightarrow> nat \<Rightarrow> string option \<Rightarrow> string \<Rightarrow> issue list" where
  "check_min field n msg s = (if length s < n then [Issue field too_small msg] else [])"

definition check_max :: "string \<Rightarrow> nat \<Rightarrow> string \<Rightarrow> issue list" where
  "check_max field n s = (if length s > n then [Issue field too_big None] else [])"

text \<open>\<open>z.string().trim().max(n).optional()\<close>: \<open>undefined\<close> passes through.\<close>

definition check_max_opt :: "string \<Rightarrow> nat \<Rightarrow> string option \<Rightarrow> issue list" where
  "check_max_opt field n v = (case v of None \<Rightarrow> [] | Some s \<Rightarrow> check_max field n (trim s))"

text \<open>\<open>z.number().min(lo).max(hi).optional()\<close>; \<open>NaN\<close> is not a number for \<open>z.number()\<close>.\<close>

definition check_number_opt :: "string \<Rightarrow> int \<Rightarrow> int \<Rightarrow> number option \<Rightarrow> issue list" where
  "check_number_opt field lo hi v =
     (case v of
        None \<Rightarrow> []
      | Some NaN \<Rightarrow> [Issue field invalid_type None]
      | Some (Number k) \<Rightarrow>
          (if k < lo then [Issue field too_small None] else []) @
          (if k > hi then [Issue field too_big None] else []))"

definition number_value :: "number option \<Rightarrow> int option" where
  "number_value v = (case v of Some (Number k) \<Rightarrow> Some k | _ \<Rightarrow> None)"

record project_fields =
  p_title :: string
  p_description :: string
  p_category :: string
  p_location :: "string option"

record project_input = project_fields +
  p_year_input :: "number option"

record project_valid = project_fields +
  p_year_completed :: "int option"

text \<open>\<open>projectSchema\<close>; \<open>year\<close> is \<open>new Date().getFullYear()\<close>.\<close>

definition projectSchema_issues :: "int \<Rightarrow> project_input \<Rightarrow> issue list" where
  "projectSchema_issues year inp =
     check_min ''title'' 1 (Some ''Title is required'') (trim (p_title inp)) @
     check_max ''title'' 200 (trim (p_title inp)) @
     check_min ''description'' 1 (Some ''Description is required'') (trim (p_description inp)) @
     check_max ''description'' 2000 (trim (p_description inp)) @
     check_min ''category'' 1 (Some ''Category is required'') (trim (p_category inp)) @
     check_max ''category'' 100 (trim (p_category inp)) @
     check_max_opt ''location'' 200 (p_location inp) @
     check_number_opt ''year_completed'' 1900 (year + 1) (p_year_input inp)"

definition projectSchema_parse :: "int \<Rightarrow> project_input \<Rightarrow> issue list + project_valid" where
  "projectSchema_parse year inp =
     (if projectSchema_issues year inp \<noteq> [] then Inl (projectSchema_issues year inp)
      else Inr \<lparr>p_title = trim (p_title inp),
                p_description = trim (p_description inp),
                p_category = trim (p_category inp),
                p_location = map_option trim (p_location inp),
                p_year_completed = number_value (p_year_input inp)\<rparr>)"

record service_fields =
  sv_title :: string
  sv_slug :: string
  sv_short_description :: "string option"
  sv_description :: string
  sv_icon :: "string option"

text \<open>\<open>serviceSchema\<close>: its \<open>description\<close> has a minimum and no maximum.\<close>

definition serviceSchema_issues :: "service_fields \<Rightarrow> issue list" where
  "serviceSchema_issues inp =
     check_min ''title'' 1 (Some ''Title is required'') (trim (sv_title inp)) @
     check_max ''title'' 200 (trim (sv_title inp)) @
     check_min ''slug'' 1 (Some ''Slug is required'') (trim (sv_slug inp)) @
     check_max ''slug'' 200 (trim (sv_slug inp)) @
     check_max_opt ''short_description'' 500 (sv_short_description inp) @
     check_min ''description'' 1 (Some ''Description is required'') (trim (sv_description inp)) @
     check_max_opt ''icon'' 100 (sv_icon inp)"

definition serviceSchema_parse :: "service_fields \<Rightarrow> issue list + service_fields" where
  "serviceSchema_parse inp =
     (if serviceSchema_issues inp \<noteq> [] then Inl (serviceSchema_issues inp)
      else Inr \<lparr>sv_title = trim (sv_title inp),
                sv_slug = trim (sv_slug inp),
                sv_short_description = map_option trim (sv_short_description inp),
                sv_description = trim (sv_description inp),
                sv_icon = map_option trim (sv_icon inp)\<rparr>)"

record gallery_fields =
  g_title :: "string option"
  g_description :: "string option"
  g_category :: string

definition gallerySchema_issues :: "gallery_fields \<Rightarrow> issue list" where
  "gallerySchema_issues inp =
     check_max_opt ''title'' 200 (g_title inp) @
     check_max_opt ''description'' 500 (g_description inp) @
     check_min ''category'' 1 (Some ''Category is required'') (trim (g_category inp)) @
     check_max ''category'' 100 (trim (g_category inp))"

definition gallerySchema_parse :: "gallery_fields \<Rightarrow> issue list + gallery_fields" where
  "gallerySchema_parse inp =
     (if gallerySchema_issues inp \<noteq> [] then Inl (gallerySchema_issues inp)
      else Inr \<lparr>g_title = map_option trim (g_title inp),
                g_description = map_option trim (g_description inp),
                g_category = trim (g_category inp)\<rparr>)"

section \<open>The backend client\<close>

text \<open>
  The hosted backend is outside the repository. The handlers see it through the client's
  calls, each of which resolves to a response with an \<open>error\<close> field (\<open>null\<close> on
  success) and a \<open>data\<close> field; the handlers test \<open>error\<close> and throw it themselves.
  A request sent to the backend is recorded, in order, in \<open>calls\<close>; the response to
  the request number \<open>k\<close> is read from the environment, which fixes one behaviour of
  the backend. A row is the object literal passed to \<open>insert\<close> or \<open>update\<close>: the
  columns it names, with their values.
\<close>

datatype jsval = Null | Str string | Num int | Bool bool

type_synonym row = "(string \<times> jsval) list"

datatype File = File (file_name: string)

datatype request =
    Insert string row
  | InsertReturning string row
  | Update string row string jsval
  | Delete string string jsval
  | Select string string bool
  | StorageUpload string string File
  | StorageRemove string "string list"

record Project =
  pr_id :: string
  pr_title :: string
  pr_description :: string
  pr_category :: string
  pr_location :: "string option"
  pr_year_completed :: "int option"

record Service =
  se_id :: string
  se_title :: string
  se_slug :: string
  se_description :: string
  se_short_description :: "string option"
  se_icon :: "string option"
  se_is_active :: bool

record GalleryItem =
  gi_id :: string
  gi_image_url :: "string option"
  gi_title :: "string option"
  gi_description :: "string option"
  gi_category :: string
  gi_is_active :: bool
  gi_display_order :: int

text \<open>
  The environment: \<open>error_of k\<close> is the \<open>error.message\<close> of the response to request
  \<open>k\<close> (\<open>None\<close> for \<open>null\<close>), \<open>inserted_id k\<close> the \<open>id\<close> of the row it returns,
  \<open>select_* k\<close> the rows a select returns (\<open>None\<close> for \<open>null\<close>);
  \<open>random_text n\<close> is the text of the \<open>n\<close>-th \<open>Math.random()\<close>, \<open>public_url\<close>
  the client's \<open>getPublicUrl\<close> (computed locally, no request), and \<open>current_year\<close>
  is \<open>new Date().getFullYear()\<close>.
\<close>

record env =
  error_of :: "nat \<Rightarrow> string option"
  inserted_id :: "nat \<Rightarrow> string"
  select_projects :: "nat \<Rightarrow> Project list option"
  select_services :: "nat \<Rightarrow> Service list option"
  select_gallery :: "nat \<Rightarrow> GalleryItem list option"
  random_text :: "nat \<Rightarrow> string"
  public_url :: "string \<Rightarrow> string \<Rightarrow> string"
  current_year :: int

section \<open>The admin page\<close>

datatype error = ZodError "issue list" | BackendError string

datatype message = Text string | Issues "issue list"

fun error_message :: "error \<Rightarrow> message" where
  "error_message (ZodError is) = Issues is"
| "error_message (BackendError m) = Text m"

datatype toast = Toast (toast_title: string) (toast_description: message) (destructive: bool)

datatype media_type = image | video

text \<open>
  The state of the component (one field for each \<open>useState\<close> the handlers touch),
  followed by what the handlers have done to the outside: the requests sent, the
  notices shown, and the number of random numbers drawn.
\<close>

record admin =
  projects :: "Project list"
  services :: "Service list"
  galleryItems :: "GalleryItem list"
  title :: string
  description :: string
  category :: string
  location :: string
  yearCompleted :: string
  images :: "File list"
  submitting :: bool
  serviceTitle :: string
  serviceSlug :: string
  serviceShortDesc :: string
  serviceDescription :: string
  serviceIcon :: string
  serviceImages :: "File list"
  editingService :: "string option"
  serviceSubmitting :: bool
  galleryTitle :: string
  galleryDescription :: string
  galleryCategory :: string
  galleryImages :: "File list"
  galleryVideoUrl :: string
  galleryMediaType :: media_type
  gallerySubmitting :: bool
  projectVideos :: "File list"
  serviceVideos :: "File list"
  calls :: "request list"
  toasts :: "toast list"
  randoms :: nat

definition send :: "env \<Rightarrow> request \<Rightarrow> admin \<Rightarrow> string option \<times> admin" where
  "send E r w = (error_of E (length (calls w)), w\<lparr>calls := calls w @ [r]\<rparr>)"

definition random :: "env \<Rightarrow> admin \<Rightarrow> string \<times> admin" where
  "random E w = (random_text E (randoms w), w\<lparr>randoms := randoms w + 1\<rparr>)"

definition show_toast :: "toast \<Rightarrow> admin \<Rightarrow> admin" where
  "show_toast t w = w\<lparr>toasts := toasts w @ [t]\<rparr>"

text \<open>\<open>s || undefined\<close> and \<open>v || null\<close> on a string that may be absent.\<close>

definition or_undefined :: "string \<Rightarrow> string option" where
  "or_undefined s = (if s = [] then None else Some s)"

definition or_null :: "string option \<Rightarrow> jsval" where
  "or_null v = (case v of None \<Rightarrow> Null | Some s \<Rightarrow> if s = [] then Null else Str s)"

definition or_empty :: "string option \<Rightarrow> string" where
  "or_empty v = (case v of None \<Rightarrow> [] | Some s \<Rightarrow> s)"

subsection \<open>List refresh\<close>

text \<open>
  A handler is modelled as one step: its requests are answered in the order it sends
  them, and the list refresh it starts at its end (without awaiting it) is carried
  out within the step.
\<close>

definition fetchProjects :: "env \<Rightarrow> admin \<Rightarrow> admin" where
  "fetchProjects E w =
     (let k = length (calls w);
          (err, w1) = send E (Select ''projects'' ''created_at'' False) w
      in case err of
           Some m \<Rightarrow> show_toast (Toast ''Error'' (Text ''Failed to fetch projects'') True) w1
         | None \<Rightarrow> w1\<lparr>projects := (case select_projects E k of None \<Rightarrow> [] | Some d \<Rightarrow> d)\<rparr>)"

definition fetchServices :: "env \<Rightarrow> admin \<Rightarrow> admin" where
  "fetchServices E w =
     (let k = length (calls w);
          (err, w1) = send E (Select ''services'' ''created_at'' False) w
      in case err of
           Some m \<Rightarrow> show_toast (Toast ''Error'' (Text ''Failed to fetch services'') True) w1
         | None \<Rightarrow> w1\<lparr>services := (case select_services E k of None \<Rightarrow> [] | Some d \<Rightarrow> d)\<rparr>)"

definition fetchGalleryItems :: "env \<Rightarrow> admin \<Rightarrow> admin" where
  "fetchGalleryItems E w =
     (let k = length (calls w);
          (err, w1) = send E (Select ''gallery'' ''display_order'' True) w
      in case err of
           Some m \<Rightarrow> show_toast (Toast ''Error'' (Text ''Failed to fetch gallery items'') True) w1
         | None \<Rightarrow> w1\<lparr>galleryItems := (case select_gallery E k of None \<Rightarrow> [] | Some d \<Rightarrow> d)\<rparr>)"

subsection \<open>Media upload loops\<close>

text \<open>The object literals inserted for the file at index \<open>i\<close> of a project or a service.\<close>

definition project_image_row :: "string \<Rightarrow> string \<Rightarrow> nat \<Rightarrow> row" where
  "project_image_row pid url i =
     [(''project_id'', Str pid), (''image_url'', Str url),
      (''is_primary'', Bool (i = 0)), (''display_order'', Num (int i))]"

definition project_video_row :: "string \<Rightarrow> string \<Rightarrow> nat \<Rightarrow> row" where
  "project_video_row pid url i =
     [(''project_id'', Str pid), (''video_url'', Str url), (''display_order'', Num (int i))]"

definition service_image_row :: "string \<Rightarrow> string \<Rightarrow> nat \<Rightarrow> row" where
  "service_image_row sid url i =
     [(''service_id'', Str sid), (''image_url'', Str url),
      (''is_primary'', Bool (i = 0)), (''display_order'', Num (int i))]"

definition service_video_row :: "string \<Rightarrow> string \<Rightarrow> nat \<Rightarrow> row" where
  "service_video_row sid url i =
     [(''service_id'', Str sid), (''video_url'', Str url), (''display_order'', Num (int i))]"

text \<open>
  The loop \<open>for (let i = 0; i < files.length; i++)\<close> of \<open>handleSubmit\<close> and
  \<open>handleServiceSubmit\<close>, from index \<open>i\<close> on the files left: upload under
  \<open>parent/random.ext\<close>, then insert the row built by \<open>mk\<close>. A \<open>throw\<close> leaves the
  loop with the error and the state reached.
\<close>

fun upload_files ::
  "env \<Rightarrow> string \<Rightarrow> string \<Rightarrow> (string \<Rightarrow> nat \<Rightarrow> row) \<Rightarrow> string \<Rightarrow> nat \<Rightarrow> File list \<Rightarrow> admin
     \<Rightarrow> error option \<times> admin" where
  "upload_files E bucket table mk parent i [] w = (None, w)"
| "upload_files E bucket table mk parent i (f # fs) w =
     (let fileExt = split_pop CHR ''.'' (file_name f);
          (r, w1) = random E w;
          fileName = r @ ''.'' @ fileExt;
          filePath = parent @ ''/'' @ fileName;
          (uploadError, w2) = send E (StorageUpload bucket filePath f) w1
      in case uploadError of
           Some m \<Rightarrow> (Some (BackendError m), w2)
         | None \<Rightarrow>
             (let publicUrl = public_url E bucket filePath;
                  (insertError, w3) = send E (Insert table (mk publicUrl i)) w2
              in case insertError of
                   Some m \<Rightarrow> (Some (BackendError m), w3)
                 | None \<Rightarrow> upload_files E bucket table mk parent (i + 1) fs w3))"

text \<open>
  The loop \<open>for (const image of galleryImages)\<close> of \<open>handleGallerySubmit\<close>: the path
  is flat and the inserted object names no \<open>display_order\<close> and no \<open>is_primary\<close>.
\<close>

definition gallery_image_row :: "gallery_fields \<Rightarrow> string \<Rightarrow> row" where
  "gallery_image_row validated url =
     [(''image_url'', Str url),
      (''title'', or_null (g_title validated)),
      (''description'', or_null (g_description validated)),
      (''category'', Str (g_category validated)),
      (''media_type'', Str ''image'')]"

definition gallery_video_row :: "gallery_fields \<Rightarrow> string \<Rightarrow> row" where
  "gallery_video_row validated url =
     [(''image_url'', Null),
      (''video_url'', Str url),
      (''title'', or_null (g_title validated)),
      (''description'', or_null (g_description validated)),
      (''category'', Str (g_category validated)),
      (''media_type'', Str ''video'')]"

fun upload_gallery_images :: "env \<Rightarrow> gallery_fields \<Rightarrow> File list \<Rightarrow> admin \<Rightarrow> error option \<times> admin" where
  "upload_gallery_images E validated [] w = (None, w)"
| "upload_gallery_images E validated (f # fs) w =
     (let fileExt = split_pop CHR ''.'' (file_name f);
          (r, w1) = random E w;
          fileName = r @ ''.'' @ fileExt;
          filePath = fileName;
          (uploadError, w2) = send E (StorageUpload ''gallery-images'' filePath f) w1
      in case uploadError of
           Some m \<Rightarrow> (Some (BackendError m), w2)
         | None \<Rightarrow>
             (let publicUrl = public_url E ''gallery-images'' filePath;
                  (insertError, w3) = send E (Insert ''gallery'' (gallery_image_row validated publicUrl)) w2
              in case insertError of
                   Some m \<Rightarrow> (Some (BackendError m), w3)
                 | None \<Rightarrow> upload_gallery_images E validated fs w3))"

subsection \<open>Gallery\<close>

text \<open>
  Each handler is its \<open>try\<close> block, returning the error thrown (if any) with the state
  reached, wrapped by its \<open>catch\<close> (an error notice) and its \<open>finally\<close>.
\<close>

text \<open>The object literal handed to \<open>gallerySchema.parse\<close>.\<close>

definition gallery_form :: "admin \<Rightarrow> gallery_fields" where
  "gallery_form w =
     \<lparr>g_title = or_undefined (trim (galleryTitle w)),
      g_description = or_undefined (trim (galleryDescription w)),
      g_category = galleryCategory w\<rparr>"

definition gallery_try :: "env \<Rightarrow> admin \<Rightarrow> error option \<times> admin" where
  "gallery_try E w =
     (case gallerySchema_parse (gallery_form w) of
        Inl is \<Rightarrow> (Some (ZodError is), w)
      | Inr validated \<Rightarrow>
          (let w1 = w\<lparr>gallerySubmitting := True\<rparr>;
               n = length (galleryImages w);
               finish = (\<lambda>w'. fetchGalleryItems E
                         (w'\<lparr>galleryTitle := [], galleryDescription := [],
                             galleryCategory := ''team'', galleryImages := [],
                             galleryVideoUrl := [], galleryMediaType := image\<rparr>))
           in if galleryMediaType w = image then
                (case upload_gallery_images E validated (galleryImages w) w1 of
                   (Some e, w2) \<Rightarrow> (Some e, w2)
                 | (None, w2) \<Rightarrow>
                     (None, finish (show_toast
                        (Toast ''Success''
                           (Text (show_nat n @ '' image'' @ (if n > 1 then ''s'' else []) @
                                  '' uploaded successfully'')) False) w2)))
              else
                (let (insertError, w2) =
                       send E (Insert ''gallery''
                                 (gallery_video_row validated (trim (galleryVideoUrl w)))) w1
                 in case insertError of
                      Some m \<Rightarrow> (Some (BackendError m), w2)
                    | None \<Rightarrow>
                        (None, finish (show_toast
                           (Toast ''Success'' (Text ''Video added successfully'') False) w2)))))"

definition handleGallerySubmit :: "env \<Rightarrow> admin \<Rightarrow> admin" where
  "handleGallerySubmit E w =
     (if galleryMediaType w = image \<and> galleryImages w = [] then
        show_toast (Toast ''Error'' (Text ''Please select at least one image'') True) w
      else if galleryMediaType w = video \<and> trim (galleryVideoUrl w) = [] then
        show_toast (Toast ''Error'' (Text ''Please enter a video URL'') True) w
      else
        (let (err, w1) = gallery_try E w;
             w2 = (case err of
                     None \<Rightarrow> w1
                   | Some e \<Rightarrow> show_toast (Toast ''Error'' (error_message e) True) w1)
         in w2\<lparr>gallerySubmitting := False\<rparr>))"

text \<open>
  \<open>confirmed\<close> is the operator's answer to the \<open>confirm\<close> dialogue. The response
  of \<open>remove\<close> is not read: like every call of the client it resolves to a response
  whose \<open>error\<close> field reports a failure, and the handler does not look at it.
\<close>

definition deleteGalleryItem :: "env \<Rightarrow> bool \<Rightarrow> string \<Rightarrow> string option \<Rightarrow> admin \<Rightarrow> admin" where
  "deleteGalleryItem E confirmed item_id imageUrl w =
     (if \<not> confirmed then w
      else
        (let w1 = (case imageUrl of
                     None \<Rightarrow> w
                   | Some u \<Rightarrow>
                       if u = [] then w
                       else (let filePath = split_pop CHR ''/'' u
                             in if filePath = [] then w
                                else snd (send E (StorageRemove ''gallery-images'' [filePath]) w)));
             (err, w2) = send E (Delete ''gallery'' ''id'' (Str item_id)) w1
         in case err of
              Some m \<Rightarrow> show_toast (Toast ''Error'' (Text m) True) w2
            | None \<Rightarrow>
                fetchGalleryItems E
                  (show_toast (Toast ''Success'' (Text ''Gallery item deleted'') False) w2)))"

subsection \<open>Projects\<close>

text \<open>The object literal handed to \<open>projectSchema.parse\<close>.\<close>

definition project_form :: "admin \<Rightarrow> project_input" where
  "project_form w =
     \<lparr>p_title = trim (title w),
      p_description = trim (description w),
      p_category = trim (category w),
      p_location = or_undefined (trim (location w)),
      p_year_input = (if yearCompleted w = [] then None
                      else Some (parseInt (yearCompleted w)))\<rparr>"

text \<open>
  The object \<open>projectData\<close>: \<open>location\<close> and \<open>year_completed\<close> are set only when
  the validated value is truthy.
\<close>

definition projectData :: "project_valid \<Rightarrow> row" where
  "projectData validated =
     [(''title'', Str (p_title validated)),
      (''description'', Str (p_description validated)),
      (''category'', Str (p_category validated))] @
     (case p_location validated of
        None \<Rightarrow> []
      | Some l \<Rightarrow> if l = [] then [] else [(''location'', Str l)]) @
     (case p_year_completed validated of
        None \<Rightarrow> []
      | Some y \<Rightarrow> if y = 0 then [] else [(''year_completed'', Num y)])"

definition project_try :: "env \<Rightarrow> admin \<Rightarrow> error option \<times> admin" where
  "project_try E w =
     (case projectSchema_parse (current_year E) (project_form w) of
        Inl is \<Rightarrow> (Some (ZodError is), w)
      | Inr validated \<Rightarrow>
          (let w1 = w\<lparr>submitting := True\<rparr>;
               k = length (calls w1);
               (projectError, w2) =
                  send E (InsertReturning ''projects'' (projectData validated)) w1
           in case projectError of
                Some m \<Rightarrow> (Some (BackendError m), w2)
              | None \<Rightarrow>
                  (let project_id = inserted_id E k
                   in case upload_files E ''project-images'' ''project_images''
                             (project_image_row project_id) project_id 0 (images w) w2 of
                        (Some e, w3) \<Rightarrow> (Some e, w3)
                      | (None, w3) \<Rightarrow>
                          (case upload_files E ''project-images'' ''project_videos''
                                  (project_video_row project_id) project_id 0 (projectVideos w) w3 of
                             (Some e, w4) \<Rightarrow> (Some e, w4)
                           | (None, w4) \<Rightarrow>
                               (None,
                                fetchProjects E
                                  ((show_toast (Toast ''Success''
                                       (Text ''Project created successfully'') False) w4)
                                     \<lparr>title := [], description := [], category := [],
                                      location := [], yearCompleted := [], images := [],
                                      projectVideos := []\<rparr>))))))"

definition handleSubmit :: "env \<Rightarrow> admin \<Rightarrow> admin" where
  "handleSubmit E w =
     (let (err, w1) = project_try E w;
          w2 = (case err of
                  None \<Rightarrow> w1
                | Some e \<Rightarrow> show_toast (Toast ''Error'' (error_message e) True) w1)
      in w2\<lparr>submitting := False\<rparr>)"

definition deleteProject :: "env \<Rightarrow> bool \<Rightarrow> string \<Rightarrow> admin \<Rightarrow> admin" where
  "deleteProject E confirmed project_id w =
     (if \<not> confirmed then w
      else
        (let (err, w1) = send E (Delete ''projects'' ''id'' (Str project_id)) w
         in case err of
              Some m \<Rightarrow> show_toast (Toast ''Error'' (Text ''Failed to delete project'') True) w1
            | None \<Rightarrow>
                fetchProjects E
                  (show_toast (Toast ''Success'' (Text ''Project deleted successfully'') False) w1)))"

subsection \<open>Services\<close>

definition editService :: "Service \<Rightarrow> admin \<Rightarrow> admin" where
  "editService service w =
     w\<lparr>editingService := Some (se_id service),
       serviceTitle := se_title service,
       serviceSlug := se_slug service,
       serviceShortDesc := or_empty (se_short_description service),
       serviceDescription := se_description service,
       serviceIcon := or_empty (se_icon service)\<rparr>"

definition cancelEditService :: "admin \<Rightarrow> admin" where
  "cancelEditService w =
     w\<lparr>editingService := None,
       serviceTitle := [],
       serviceSlug := [],
       serviceShortDesc := [],
       serviceDescription := [],
       serviceIcon := [],
       serviceImages := []\<rparr>"

text \<open>The test \<open>if (editingService)\<close>: \<open>null\<close> and the empty string are falsy.\<close>

definition editing :: "string option \<Rightarrow> string option" where
  "editing v = (case v of None \<Rightarrow> None | Some i \<Rightarrow> if i = [] then None else Some i)"

text \<open>The object literal handed to \<open>serviceSchema.parse\<close>.\<close>

definition service_form :: "admin \<Rightarrow> service_fields" where
  "service_form w =
     \<lparr>sv_title = trim (serviceTitle w),
      sv_slug = trim (serviceSlug w),
      sv_short_description = or_undefined (trim (serviceShortDesc w)),
      sv_description = trim (serviceDescription w),
      sv_icon = or_undefined (trim (serviceIcon w))\<rparr>"

text \<open>
  The object \<open>serviceData\<close>: \<open>short_description\<close> and \<open>icon\<close> are set only when
  the validated value is truthy.
\<close>

definition serviceData :: "service_fields \<Rightarrow> row" where
  "serviceData validated =
     [(''title'', Str (sv_title validated)),
      (''slug'', Str (sv_slug validated)),
      (''description'', Str (sv_description validated))] @
     (case sv_short_description validated of
        None \<Rightarrow> []
      | Some d \<Rightarrow> if d = [] then [] else [(''short_description'', Str d)]) @
     (case sv_icon validated of
        None \<Rightarrow> []
      | Some c \<Rightarrow> if c = [] then [] else [(''icon'', Str c)])"

definition service_try :: "env \<Rightarrow> admin \<Rightarrow> error option \<times> admin" where
  "service_try E w =
     (case serviceSchema_parse (service_form w) of
        Inl is \<Rightarrow> (Some (ZodError is), w)
      | Inr validated \<Rightarrow>
          (let w1 = w\<lparr>serviceSubmitting := True\<rparr>;
               finish = (\<lambda>w'. (None, fetchServices E (cancelEditService w')))
           in case editing (editingService w) of
                Some edited \<Rightarrow>
                (let (err, w2) =
                       send E (Update ''services'' (serviceData validated) ''id'' (Str edited)) w1
                 in case err of
                      Some m \<Rightarrow> (Some (BackendError m), w2)
                    | None \<Rightarrow>
                        finish (show_toast
                          (Toast ''Success'' (Text ''Service updated successfully'') False) w2))
              | None \<Rightarrow>
                (let k = length (calls w1);
                     (serviceError, w2) =
                        send E (InsertReturning ''services'' (serviceData validated)) w1
                 in case serviceError of
                      Some m \<Rightarrow> (Some (BackendError m), w2)
                    | None \<Rightarrow>
                        (let service_id = inserted_id E k
                         in case upload_files E ''service-images'' ''service_images''
                                   (service_image_row service_id) service_id 0
                                   (serviceImages w) w2 of
                              (Some e, w3) \<Rightarrow> (Some e, w3)
                            | (None, w3) \<Rightarrow>
                                (case upload_files E ''service-images'' ''service_videos''
                                        (service_video_row service_id) service_id 0
                                        (serviceVideos w) w3 of
                                   (Some e, w4) \<Rightarrow> (Some e, w4)
                                 | (None, w4) \<Rightarrow>
                                     finish (show_toast
                                       (Toast ''Success''
                                          (Text ''Service created successfully'') False) w4))))))"

definition handleServiceSubmit :: "env \<Rightarrow> admin \<Rightarrow> admin" where
  "handleServiceSubmit E w =
     (let (err, w1) = service_try E w;
          w2 = (case err of
                  None \<Rightarrow> w1
                | Some e \<Rightarrow> show_toast (Toast ''Error'' (error_message e) True) w1)
      in w2\<lparr>serviceSubmitting := False\<rparr>)"

definition deleteService :: "env \<Rightarrow> bool \<Rightarrow> string \<Rightarrow> admin \<Rightarrow> admin" where
  "deleteService E confirmed service_id w =
     (if \<not> confirmed then w
      else
        (let (err, w1) = send E (Delete ''services'' ''id'' (Str service_id)) w
         in case err of
              Some m \<Rightarrow> show_toast (Toast ''Error'' (Text ''Failed to delete service'') True) w1
            | None \<Rightarrow>
                fetchServices E
                  (show_toast (Toast ''Success'' (Text ''Service deleted successfully'') False) w1)))"

section \<open>Observing a run\<close>

text \<open>The state of the component when it is mounted: the defaults of its \<open>useState\<close> calls.\<close>

definition initial :: admin where
  "initial =
     \<lparr>projects = [], services = [], galleryItems = [],
      title = [], description = [], category = [], location = [], yearCompleted = [],
      images = [], submitting = False,
      serviceTitle = [], serviceSlug = [], serviceShortDesc = [], serviceDescription = [],
      serviceIcon = [], serviceImages = [], editingService = None, serviceSubmitting = False,
      galleryTitle = [], galleryDescription = [], galleryCategory = ''team'',
      galleryImages = [], galleryVideoUrl = [], galleryMediaType = image,
      gallerySubmitting = False,
      projectVideos = [], serviceVideos = [],
      calls = [], toasts = [], randoms = 0\<rparr>"

text \<open>The requests sent, and the notices shown, between the states \<open>w\<close> and \<open>w'\<close>.\<close>

definition new_calls :: "admin \<Rightarrow> admin \<Rightarrow> request list" where
  "new_calls w w' = drop (length (calls w)) (calls w')"

definition new_toasts :: "admin \<Rightarrow> admin \<Rightarrow> toast list" where
  "new_toasts w w' = drop (length (toasts w)) (toasts w')"

text \<open>
  The rows of the insert requests into table \<open>t\<close> among the requests \<open>qs\<close>, the first of
  which is request number \<open>k\<close>, keeping the requests whose number satisfies \<open>ok\<close>.
\<close>

fun table_rows :: "(nat \<Rightarrow> bool) \<Rightarrow> string \<Rightarrow> nat \<Rightarrow> request list \<Rightarrow> row list" where
  "table_rows ok t k [] = []"
| "table_rows ok t k (q # qs) =
     (case q of
        Insert t' r \<Rightarrow> if t' = t \<and> ok k then [r] else []
      | InsertReturning t' r \<Rightarrow> if t' = t \<and> ok k then [r] else []
      | _ \<Rightarrow> []) @ table_rows ok t (k + 1) qs"

text \<open>The rows the run from \<open>w\<close> to \<open>w'\<close> asked to insert into \<open>t\<close>.\<close>

definition inserted_rows :: "string \<Rightarrow> admin \<Rightarrow> admin \<Rightarrow> row list" where
  "inserted_rows t w w' = table_rows (\<lambda>k. True) t (length (calls w)) (new_calls w w')"

text \<open>Those of them the backend accepted: the rows the run has committed to \<open>t\<close>.\<close>

definition committed_rows :: "env \<Rightarrow> string \<Rightarrow> admin \<Rightarrow> admin \<Rightarrow> row list" where
  "committed_rows E t w w' =
     table_rows (\<lambda>k. error_of E k = None) t (length (calls w)) (new_calls w w')"

text \<open>Requests that take something back: a row delete or a stored-file removal.\<close>

fun is_delete :: "request \<Rightarrow> bool" where
  "is_delete (Delete t c v) = True"
| "is_delete (StorageRemove b ps) = True"
| "is_delete q = False"


fun is_upload :: "request \<Rightarrow> bool" where
  "is_upload (StorageUpload b p f) = True"
| "is_upload q = False"

text \<open>The value a row gives to a column, \<open>None\<close> when the row does not name the column.\<close>

definition column :: "string \<Rightarrow> row \<Rightarrow> jsval option" where
  "column c r = map_of r c"

subsection \<open>A batch as the list of its requests\<close>

text \<open>
  Sending the requests \<open>qs\<close> in order, the first being request number \<open>k\<close>, and
  stopping after the first one the backend refuses: the requests sent, and the message
  of the refusal (if any).
\<close>

fun sent_until_error :: "env \<Rightarrow> nat \<Rightarrow> request list \<Rightarrow> request list" where
  "sent_until_error E k [] = []"
| "sent_until_error E k (q # qs) =
     q # (if error_of E k = None then sent_until_error E (k + 1) qs else [])"

fun refusal :: "env \<Rightarrow> nat \<Rightarrow> request list \<Rightarrow> string option" where
  "refusal E k [] = None"
| "refusal E k (q # qs) =
     (case error_of E k of Some m \<Rightarrow> Some m | None \<Rightarrow> refusal E (k + 1) qs)"

text \<open>
  The requests of a whole batch of files of a project or a service, from index \<open>i\<close>
  and random number \<open>r\<close>: for each file its upload, then the insert of its row.
\<close>

definition child_path :: "env \<Rightarrow> string \<Rightarrow> nat \<Rightarrow> File \<Rightarrow> string" where
  "child_path E parent r f =
     parent @ ''/'' @ random_text E r @ ''.'' @ split_pop CHR ''.'' (file_name f)"

fun child_requests ::
  "env \<Rightarrow> string \<Rightarrow> string \<Rightarrow> (string \<Rightarrow> nat \<Rightarrow> row) \<Rightarrow> string \<Rightarrow> nat \<Rightarrow> nat \<Rightarrow> File list
     \<Rightarrow> request list" where
  "child_requests E bucket table mk parent i r [] = []"
| "child_requests E bucket table mk parent i r (f # fs) =
     StorageUpload bucket (child_path E parent r f) f #
     Insert table (mk (public_url E bucket (child_path E parent r f)) i) #
     child_requests E bucket table mk parent (i + 1) (r + 1) fs"

text \<open>The same for a batch of gallery images, whose paths are flat.\<close>

definition gallery_path :: "env \<Rightarrow> nat \<Rightarrow> File \<Rightarrow> string" where
  "gallery_path E r f = random_text E r @ ''.'' @ split_pop CHR ''.'' (file_name f)"

fun gallery_requests :: "env \<Rightarrow> gallery_fields \<Rightarrow> nat \<Rightarrow> File list \<Rightarrow> request list" where
  "gallery_requests E validated r [] = []"
| "gallery_requests E validated r (f # fs) =
     StorageUpload ''gallery-images'' (gallery_path E r f) f #
     Insert ''gallery''
       (gallery_image_row validated (public_url E ''gallery-images'' (gallery_path E r f))) #
     gallery_requests E validated (r + 1) fs"

text \<open>
  The requests of a project creation in which nothing fails: the project row, the
  image batch, the video batch. The parent id is the one the backend returns for the
  project row.
\<close>

definition project_requests :: "env \<Rightarrow> admin \<Rightarrow> project_valid \<Rightarrow> request list" where
  "project_requests E w validated =
     (let project_id = inserted_id E (length (calls w))
      in InsertReturning ''projects'' (projectData validated) #
         child_requests E ''project-images'' ''project_images''
           (project_image_row project_id) project_id 0 (randoms w) (images w) @
         child_requests E ''project-images'' ''project_videos''
           (project_video_row project_id) project_id 0
           (randoms w + length (images w)) (projectVideos w))"

text \<open>The same for a service: the update when a service is being edited, else the creation.\<close>

definition service_requests :: "env \<Rightarrow> admin \<Rightarrow> service_fields \<Rightarrow> request list" where
  "service_requests E w validated =
     (case editing (editingService w) of
        Some edited \<Rightarrow> [Update ''services'' (serviceData validated) ''id'' (Str edited)]
      | None \<Rightarrow>
          (let service_id = inserted_id E (length (calls w))
           in InsertReturning ''services'' (serviceData validated) #
              child_requests E ''service-images'' ''service_images''
                (service_image_row service_id) service_id 0 (randoms w) (serviceImages w) @
              child_requests E ''service-images'' ''service_videos''
                (service_video_row service_id) service_id 0
                (randoms w + length (serviceImages w)) (serviceVideos w)))"

text \<open>The display orders \<open>0, 1, ..\<close> and the primary flags \<open>true, false, ..\<close> of \<open>n\<close> rows.\<close>

definition orders_from_zero :: "nat \<Rightarrow> jsval option list" where
  "orders_from_zero n = map (\<lambda>j. Some (Num (int j))) [0..<n]"

definition primary_first :: "nat \<Rightarrow> jsval option list" where
  "primary_first n = map (\<lambda>j. Some (Bool (j = 0))) [0..<n]"

subsection \<open>The states the page can be in\<close>

text \<open>
  \<open>handleGallerySubmit\<close> returns before its \<open>try\<close> when no image is selected for
  an image item, or no URL is entered for a video item.
\<close>

definition gallery_returns_early :: "admin \<Rightarrow> bool" where
  "gallery_returns_early w =
     (galleryMediaType w = image \<and> galleryImages w = [] \<or>
      galleryMediaType w = video \<and> trim (galleryVideoUrl w) = [])"

text \<open>No submission is in progress.\<close>

definition idle :: "admin \<Rightarrow> bool" where
  "idle w = (\<not> submitting w \<and> \<not> serviceSubmitting w \<and> \<not> gallerySubmitting w)"

text \<open>
  The states between two events: the state of the mounted page, and every state an
  event leads to from there. The events are the operator's input into the form
  fields (any of them, to any value), the three submissions, the three deletions
  (confirmed or not), the start and the cancellation of a service edit, and the
  list refreshes, each against any behaviour of the backend.
\<close>

inductive_set reachable :: "admin set" where
  mounted: "initial \<in> reachable"
| input: "w \<in> reachable \<Longrightarrow>
     w\<lparr>title := a1, description := a2, category := a3, location := a4, yearCompleted := a5,
       images := a6, serviceTitle := b1, serviceSlug := b2, serviceShortDesc := b3,
       serviceDescription := b4, serviceIcon := b5, serviceImages := b6,
       galleryTitle := c1, galleryDescription := c2, galleryCategory := c3,
       galleryImages := c4, galleryVideoUrl := c5, galleryMediaType := c6,
       projectVideos := d1, serviceVideos := d2\<rparr> \<in> reachable"
| project_submit: "w \<in> reachable \<Longrightarrow> handleSubmit E w \<in> reachable"
| service_submit: "w \<in> reachable \<Longrightarrow> handleServiceSubmit E w \<in> reachable"
| gallery_submit: "w \<in> reachable \<Longrightarrow> handleGallerySubmit E w \<in> reachable"
| project_delete: "w \<in> reachable \<Longrightarrow> deleteProject E confirmed i w \<in> reachable"
| service_delete: "w \<in> reachable \<Longrightarrow> deleteService E confirmed i w \<in> reachable"
| gallery_delete: "w \<in> reachable \<Longrightarrow> deleteGalleryItem E confirmed i u w \<in> reachable"
| edit: "w \<in> reachable \<Longrightarrow> editService s w \<in> reachable"
| cancel: "w \<in> reachable \<Longrightarrow> cancelEditService w \<in> reachable"
| projects_fetched: "w \<in> reachable \<Longrightarrow> fetchProjects E w \<in> reachable"
| services_fetched: "w \<in> reachable \<Longrightarrow> fetchServices E w \<in> reachable"
| gallery_fetched: "w \<in> reachable \<Longrightarrow> fetchGalleryItems E w \<in> reachable"

text \<open>The length of a string that may be absent.\<close>

definition opt_length :: "string option \<Rightarrow> nat" where
  "opt_length v = (case v of None \<Rightarrow> 0 | Some s \<Rightarrow> length s)"

subsection \<open>Example environments\<close>

text \<open>A backend that accepts every request, and one that refuses request number \<open>n\<close>.\<close>

definition env_ok :: env where
  "env_ok =
     \<lparr>error_of = (\<lambda>k. None),
      inserted_id = (\<lambda>k. ''row'' @ replicate k CHR ''+''),
      select_projects = (\<lambda>k. None),
      select_services = (\<lambda>k. None),
      select_gallery = (\<lambda>k. None),
      random_text = (\<lambda>n. ''0.5'' @ replicate n CHR ''1''),
      public_url = (\<lambda>b p. ''https://cdn.example/'' @ b @ ''/'' @ p),
      current_year = 2025\<rparr>"

definition env_fail :: "nat \<Rightarrow> string \<Rightarrow> env" where
  "env_fail n m = env_ok\<lparr>error_of := (\<lambda>k. if k = n then Some m else None)\<rparr>"

subsection \<open>Example states\<close>

text \<open>The gallery form with three images selected, and with two.\<close>

definition three_images :: admin where
  "three_images = initial\<lparr>galleryImages := [File ''a.png'', File ''b.jpg'', File ''c.png'']\<rparr>"

definition two_gallery_images :: admin where
  "two_gallery_images = initial\<lparr>galleryImages := [File ''a.png'', File ''b.jpg'']\<rparr>"

text \<open>The project form filled in, with two images selected.\<close>

definition kitchen_project :: admin where
  "kitchen_project =
     initial\<lparr>title := ''Kitchen'', description := ''New ceiling'', category := ''ceilings'',
             images := [File ''a.png'', File ''b.jpg'']\<rparr>"

text \<open>
  The three forms filled in at once: a project with two images, a new service with
  one image, and two gallery images.
\<close>

definition filled_forms :: admin where
  "filled_forms =
     initial\<lparr>title := ''Kitchen'', description := ''New ceiling'', category := ''ceilings'',
             images := [File ''a.png'', File ''b.jpg''],
             serviceTitle := ''Lounge'', serviceSlug := ''lounge'',
             serviceDescription := ''Ceilings'', serviceImages := [File ''s.png''],
             galleryImages := [File ''a.png'', File ''b.jpg'']\<rparr>"

text \<open>
  A service already in the list; the form while that service is being edited; and
  the form filled in for a new service with the same slug.
\<close>

definition living_room :: Service where
  "living_room =
     \<lparr>se_id = ''s1'', se_title = ''Living room'', se_slug = ''living-room'',
      se_description = ''Ceilings'', se_short_description = None, se_icon = None,
      se_is_active = True\<rparr>"

definition editing_living_room :: admin where
  "editing_living_room = editService living_room (initial\<lparr>services := [living_room]\<rparr>)"

text \<open>
  The operator has selected an image and a video in the service form, then started
  to edit the service in the list.
\<close>

definition service_with_video :: admin where
  "service_with_video =
     editService living_room
       (initial\<lparr>services := [living_room], serviceImages := [File ''room.png''],
                serviceVideos := [File ''clip.mp4'']\<rparr>)"

definition duplicate_slug :: admin where
  "duplicate_slug =
     initial\<lparr>services := [living_room], serviceTitle := ''Lounge'',
             serviceSlug := ''living-room'', serviceDescription := ''Ceilings''\<rparr>"

section \<open>Properties of the string functions\<close>

lemma dropWhile_none: "\<forall>c \<in> set s. \<not> P c \<Longrightarrow> dropWhile P s = s"
  by (cases s) auto

lemma dropWhile_rev_dropWhile:
  "dropWhile P (rev (dropWhile P (rev (dropWhile P s)))) = rev (dropWhile P (rev (dropWhile P s)))"
proof -
  define ys where "ys = dropWhile P s"
  define zs where "zs = rev (dropWhile P (rev ys))"
  have split: "ys = zs @ rev (takeWhile P (rev ys))"
    unfolding zs_def by (metis rev_append rev_rev_ident takeWhile_dropWhile_id)
  have "dropWhile P zs = zs"
  proof (cases zs)
    case Nil
    then show ?thesis by simp
  next
    case (Cons z zs')
    then have "ys \<noteq> []" and "hd ys = z" using split by (metis append_is_Nil_conv list.distinct(1), metis hd_append2 list.sel(1) list.distinct(1))
    then have "\<not> P z" using hd_dropWhile [of P s] by (simp add: ys_def)
    then show ?thesis using Cons by simp
  qed
  then show ?thesis by (simp add: zs_def ys_def)
qed

lemma trim_idem: "trim (trim s) = trim s"
  unfolding trim_def by (simp add: dropWhile_rev_dropWhile)

lemma length_trim_le: "length (trim s) \<le> length s"
  unfolding trim_def
  by (metis length_dropWhile_le length_rev order_trans)

lemma trim_no_ws: "\<forall>c \<in> set s. \<not> is_ws c \<Longrightarrow> trim s = s"
  unfolding trim_def by (simp add: dropWhile_none)

lemma trim_replicate: "\<not> is_ws c \<Longrightarrow> trim (replicate n c) = replicate n c"
  by (rule trim_no_ws) simp

section \<open>Validation\<close>

lemma check_min_Nil: "check_min f n m s = [] \<longleftrightarrow> n \<le> length s"
  by (simp add: check_min_def)

lemma check_max_Nil: "check_max f n s = [] \<longleftrightarrow> length s \<le> n"
  by (simp add: check_max_def)

lemma check_max_opt_Nil: "check_max_opt f n v = [] \<longleftrightarrow> opt_length (map_option trim v) \<le> n"
  by (cases v) (simp_all add: check_max_opt_def check_max_def opt_length_def)

lemma map_option_trim_idem: "map_option trim (map_option trim v) = map_option trim v"
  by (cases v) (simp_all add: trim_idem)

lemma projectSchema_accepts:
  assumes "projectSchema_parse y inp = Inr v"
  shows "1 \<le> length (p_title v) \<and> length (p_title v) \<le> 200 \<and>
         1 \<le> length (p_description v) \<and> length (p_description v) \<le> 2000 \<and>
         1 \<le> length (p_category v) \<and> length (p_category v) \<le> 100 \<and>
         opt_length (p_location v) \<le> 200 \<and>
         trim (p_title v) = p_title v \<and> trim (p_description v) = p_description v \<and>
         trim (p_category v) = p_category v \<and> map_option trim (p_location v) = p_location v"
proof -
  from assms have iss: "projectSchema_issues y inp = []"
    and v: "v = \<lparr>p_title = trim (p_title inp), p_description = trim (p_description inp),
                p_category = trim (p_category inp), p_location = map_option trim (p_location inp),
                p_year_completed = number_value (p_year_input inp)\<rparr>"
    by (auto simp: projectSchema_parse_def split: if_splits)
  from iss show ?thesis
    unfolding v projectSchema_issues_def
    by (simp add: check_min_Nil check_max_Nil check_max_opt_Nil trim_idem map_option_trim_idem)
qed

lemma serviceSchema_accepts:
  assumes "serviceSchema_parse inp = Inr v"
  shows "1 \<le> length (sv_title v) \<and> length (sv_title v) \<le> 200 \<and>
         1 \<le> length (sv_slug v) \<and> length (sv_slug v) \<le> 200 \<and>
         opt_length (sv_short_description v) \<le> 500 \<and>
         1 \<le> length (sv_description v) \<and>
         opt_length (sv_icon v) \<le> 100 \<and>
         trim (sv_title v) = sv_title v \<and> trim (sv_slug v) = sv_slug v \<and>
         map_option trim (sv_short_description v) = sv_short_description v \<and>
         trim (sv_description v) = sv_description v \<and>
         map_option trim (sv_icon v) = sv_icon v"
proof -
  from assms have iss: "serviceSchema_issues inp = []"
    and v: "v = \<lparr>sv_title = trim (sv_title inp), sv_slug = trim (sv_slug inp),
                sv_short_description = map_option trim (sv_short_description inp),
                sv_description = trim (sv_description inp),
                sv_icon = map_option trim (sv_icon inp)\<rparr>"
    by (auto simp: serviceSchema_parse_def split: if_splits)
  from iss show ?thesis
    unfolding v serviceSchema_issues_def
    by (simp add: check_min_Nil check_max_Nil check_max_opt_Nil trim_idem map_option_trim_idem)
qed

lemma gallerySchema_accepts:
  assumes "gallerySchema_parse inp = Inr v"
  shows "opt_length (g_title v) \<le> 200 \<and> opt_length (g_description v) \<le> 500 \<and>
         1 \<le> length (g_category v) \<and> length (g_category v) \<le> 100 \<and>
         map_option trim (g_title v) = g_title v \<and>
         map_option trim (g_description v) = g_description v \<and>
         trim (g_category v) = g_category v"
proof -
  from assms have iss: "gallerySchema_issues inp = []"
    and v: "v = \<lparr>g_title = map_option trim (g_title inp),
                g_description = map_option trim (g_description inp),
                g_category = trim (g_category inp)\<rparr>"
    by (auto simp: gallerySchema_parse_def split: if_splits)
  from iss show ?thesis
    unfolding v gallerySchema_issues_def
    by (simp add: check_min_Nil check_max_Nil check_max_opt_Nil trim_idem map_option_trim_idem)
qed

lemma trim_t: "trim ''t'' = ''t''" "trim ''s'' = ''s''"
  by (simp_all add: trim_def is_ws_def)

lemma service_long_description:
  "0 < n \<Longrightarrow>
   serviceSchema_parse \<lparr>sv_title = ''t'', sv_slug = ''s'', sv_short_description = None,
       sv_description = replicate n CHR ''a'', sv_icon = None\<rparr>
   = Inr \<lparr>sv_title = ''t'', sv_slug = ''s'', sv_short_description = None,
       sv_description = replicate n CHR ''a'', sv_icon = None\<rparr>"
  by (simp add: serviceSchema_parse_def serviceSchema_issues_def check_min_def check_max_def
      check_max_opt_def trim_t trim_replicate is_ws_def)

lemma project_rejects_long_description:
  assumes "2000 < length (trim (description w))"
  shows "Issue ''description'' too_big None \<in> set (projectSchema_issues y (project_form w))"
  using assms
  by (simp add: projectSchema_issues_def project_form_def check_max_def trim_idem)

text \<open>
  C3: a project submission whose trimmed description is longer than 2000 characters is
  rejected by \<open>projectSchema\<close> (with a \<open>too_big\<close> issue on \<open>description\<close>), and
  \<open>handleSubmit\<close> then sends no request at all: the state it leaves differs from
  the state it found only by the error notice and the cleared \<open>submitting\<close> flag, so
  the three in-memory lists are unchanged.
\<close>

theorem long_description_rejected:
  assumes "2000 < length (trim (description w))"
  shows "\<exists>is. projectSchema_parse (current_year E) (project_form w) = Inl is \<and>
           Issue ''description'' too_big None \<in> set is \<and>
           handleSubmit E w =
             w\<lparr>toasts := toasts w @ [Toast ''Error'' (Issues is) True], submitting := False\<rparr> \<and>
           new_calls w (handleSubmit E w) = [] \<and>
           projects (handleSubmit E w) = projects w \<and>
           services (handleSubmit E w) = services w \<and>
           galleryItems (handleSubmit E w) = galleryItems w"
proof -
  let ?is = "projectSchema_issues (current_year E) (project_form w)"
  have mem: "Issue ''description'' too_big None \<in> set ?is"
    by (rule project_rejects_long_description [OF assms])
  then have ne: "?is \<noteq> []" by auto
  then have parse: "projectSchema_parse (current_year E) (project_form w) = Inl ?is"
    by (simp add: projectSchema_parse_def)
  then have tr: "project_try E w = (Some (ZodError ?is), w)"
    by (simp add: project_try_def)
  have run: "handleSubmit E w =
      w\<lparr>toasts := toasts w @ [Toast ''Error'' (Issues ?is) True], submitting := False\<rparr>"
    by (simp add: handleSubmit_def tr show_toast_def)
  show ?thesis
    using parse mem run by (intro exI [of _ ?is]) (simp add: new_calls_def)
qed

text \<open>Witness for C3: a description of 2001 letters on the otherwise empty form.\<close>

theorem long_description_rejected_witness:
  "2000 < length (trim (description (initial\<lparr>description := replicate 2001 CHR ''a''\<rparr>))) \<and>
   new_calls (initial\<lparr>description := replicate 2001 CHR ''a''\<rparr>)
     (handleSubmit env_ok (initial\<lparr>description := replicate 2001 CHR ''a''\<rparr>)) = []"
proof -
  have h: "2000 < length (trim (description (initial\<lparr>description := replicate 2001 CHR ''a''\<rparr>)))"
    by (simp add: trim_replicate is_ws_def)
  from long_description_rejected [OF h, of env_ok] h show ?thesis by blast
qed

text \<open>
  C8, as stated, fails: the \<open>description\<close> of \<open>serviceSchema\<close> has a minimum and no
  maximum, so no \<open>M\<close> bounds the accepted service descriptions.
\<close>

theorem service_description_unbounded:
  "\<not> (\<exists>M. \<forall>inp v. serviceSchema_parse inp = Inr v \<longrightarrow> length (sv_description v) \<le> M)"
proof
  assume "\<exists>M. \<forall>inp v. serviceSchema_parse inp = Inr v \<longrightarrow> length (sv_description v) \<le> M"
  then obtain M where M: "\<And>inp v. serviceSchema_parse inp = Inr v \<Longrightarrow> length (sv_description v) \<le> M"
    by blast
  have "serviceSchema_parse \<lparr>sv_title = ''t'', sv_slug = ''s'', sv_short_description = None,
       sv_description = replicate (Suc M) CHR ''a'', sv_icon = None\<rparr>
   = Inr \<lparr>sv_title = ''t'', sv_slug = ''s'', sv_short_description = None,
       sv_description = replicate (Suc M) CHR ''a'', sv_icon = None\<rparr>"
    by (rule service_long_description) simp
  from M [OF this] show False by simp
qed

text \<open>
  C8, amended: every string field of the three schemas is trimmed, the required ones
  are non-empty, and every string field other than the service description has a
  maximum length (200, 2000, 100, 200 for a project; 200, 200, 500, 100 for a
  service; 200, 500, 100 for a gallery item). The service description is trimmed and
  non-empty, with no upper bound.
\<close>

theorem string_fields_trimmed_and_bounded:
  "(projectSchema_parse y pin = Inr pv \<longrightarrow>
      1 \<le> length (p_title pv) \<and> length (p_title pv) \<le> 200 \<and>
      1 \<le> length (p_description pv) \<and> length (p_description pv) \<le> 2000 \<and>
      1 \<le> length (p_category pv) \<and> length (p_category pv) \<le> 100 \<and>
      opt_length (p_location pv) \<le> 200 \<and>
      trim (p_title pv) = p_title pv \<and> trim (p_description pv) = p_description pv \<and>
      trim (p_category pv) = p_category pv \<and> map_option trim (p_location pv) = p_location pv) \<and>
   (serviceSchema_parse sin = Inr sv \<longrightarrow>
      1 \<le> length (sv_title sv) \<and> length (sv_title sv) \<le> 200 \<and>
      1 \<le> length (sv_slug sv) \<and> length (sv_slug sv) \<le> 200 \<and>
      opt_length (sv_short_description sv) \<le> 500 \<and>
      1 \<le> length (sv_description sv) \<and>
      opt_length (sv_icon sv) \<le> 100 \<and>
      trim (sv_title sv) = sv_title sv \<and> trim (sv_slug sv) = sv_slug sv \<and>
      map_option trim (sv_short_description sv) = sv_short_description sv \<and>
      trim (sv_description sv) = sv_description sv \<and>
      map_option trim (sv_icon sv) = sv_icon sv) \<and>
   (gallerySchema_parse gin = Inr gv \<longrightarrow>
      opt_length (g_title gv) \<le> 200 \<and> opt_length (g_description gv) \<le> 500 \<and>
      1 \<le> length (g_category gv) \<and> length (g_category gv) \<le> 100 \<and>
      map_option trim (g_title gv) = g_title gv \<and>
      map_option trim (g_description gv) = g_description gv \<and>
      trim (g_category gv) = g_category gv)"
  using projectSchema_accepts [of y pin pv] serviceSchema_accepts [of sin sv]
    gallerySchema_accepts [of gin gv]
  by blast

text \<open>
  Witness for C8: one accepted input of each schema, the service one with a
  description of 5000 letters.
\<close>

theorem string_fields_trimmed_and_bounded_witness:
  "projectSchema_parse 2025
     \<lparr>p_title = ''t'', p_description = ''s'', p_category = ''t'', p_location = None,
      p_year_input = Some (Number 2024)\<rparr>
   = Inr \<lparr>p_title = ''t'', p_description = ''s'', p_category = ''t'', p_location = None,
          p_year_completed = Some 2024\<rparr> \<and>
   serviceSchema_parse
     \<lparr>sv_title = ''t'', sv_slug = ''s'', sv_short_description = None,
      sv_description = replicate 5000 CHR ''a'', sv_icon = None\<rparr>
   = Inr \<lparr>sv_title = ''t'', sv_slug = ''s'', sv_short_description = None,
          sv_description = replicate 5000 CHR ''a'', sv_icon = None\<rparr> \<and>
   gallerySchema_parse \<lparr>g_title = None, g_description = Some ''s'', g_category = '' t ''\<rparr>
   = Inr \<lparr>g_title = None, g_description = Some ''s'', g_category = ''t''\<rparr> \<and>
   length (p_description
     \<lparr>p_title = ''t'', p_description = ''s'', p_category = ''t'', p_location = None,
      p_year_completed = Some (2024::int)\<rparr>) \<le> 2000 \<and>
   1 \<le> length (sv_description
     \<lparr>sv_title = ''t'', sv_slug = ''s'', sv_short_description = None,
      sv_description = replicate 5000 CHR ''a'', sv_icon = None\<rparr>) \<and>
   opt_length (g_description
     \<lparr>g_title = None, g_description = Some ''s'', g_category = ''t''\<rparr>) \<le> 500"
proof -
  have tt: "trim '' t '' = ''t''"
    by (simp add: trim_def is_ws_def)
  have p: "projectSchema_parse 2025
     \<lparr>p_title = ''t'', p_description = ''s'', p_category = ''t'', p_location = None,
      p_year_input = Some (Number 2024)\<rparr>
   = Inr \<lparr>p_title = ''t'', p_description = ''s'', p_category = ''t'', p_location = None,
          p_year_completed = Some 2024\<rparr>"
    by (simp add: projectSchema_parse_def projectSchema_issues_def check_min_def check_max_def
        check_max_opt_def check_number_opt_def number_value_def trim_t)
  have s: "serviceSchema_parse
     \<lparr>sv_title = ''t'', sv_slug = ''s'', sv_short_description = None,
      sv_description = replicate 5000 CHR ''a'', sv_icon = None\<rparr>
   = Inr \<lparr>sv_title = ''t'', sv_slug = ''s'', sv_short_description = None,
          sv_description = replicate 5000 CHR ''a'', sv_icon = None\<rparr>"
    by (rule service_long_description) simp
  have g: "gallerySchema_parse \<lparr>g_title = None, g_description = Some ''s'', g_category = '' t ''\<rparr>
   = Inr \<lparr>g_title = None, g_description = Some ''s'', g_category = ''t''\<rparr>"
    by (simp add: gallerySchema_parse_def gallerySchema_issues_def check_min_def check_max_def
        check_max_opt_def trim_t tt)
  from string_fields_trimmed_and_bounded
         [of 2025 _ _ _ _ _ _] p s g
  show ?thesis by blast
qed

section \<open>Cancelling a service edit\<close>

text \<open>
  In every state \<open>cancelEditService\<close> empties the service title, slug, short
  description, description, icon, selected images and editing id, sends no request,
  and leaves the three in-memory lists as they were. It leaves the selected service
  videos as they were too.
\<close>

lemma cancelEditService_resets:
  "serviceTitle (cancelEditService w) = [] \<and>
   serviceSlug (cancelEditService w) = [] \<and>
   serviceShortDesc (cancelEditService w) = [] \<and>
   serviceDescription (cancelEditService w) = [] \<and>
   serviceIcon (cancelEditService w) = [] \<and>
   serviceImages (cancelEditService w) = [] \<and>
   editingService (cancelEditService w) = None \<and>
   serviceVideos (cancelEditService w) = serviceVideos w \<and>
   new_calls w (cancelEditService w) = [] \<and>
   calls (cancelEditService w) = calls w \<and>
   projects (cancelEditService w) = projects w \<and>
   services (cancelEditService w) = services w \<and>
   galleryItems (cancelEditService w) = galleryItems w"
  by (simp add: cancelEditService_def new_calls_def)

text \<open>
  C9: cancelling a service edit is to return every field of the service form to its
  empty default. The code does not: with a video selected in the service form and an
  edit under way, \<open>cancelEditService\<close> empties the title, the selected images and
  the editing id, and the selected video is still there afterwards. (The project
  form's \<open>handleSubmit\<close> does empty \<open>projectVideos\<close> with its other fields.)
\<close>

theorem cancelEditService_keeps_videos:
  "serviceVideos service_with_video = [File ''clip.mp4''] \<and>
   editingService service_with_video = Some ''s1'' \<and>
   serviceTitle (cancelEditService service_with_video) = [] \<and>
   serviceImages (cancelEditService service_with_video) = [] \<and>
   editingService (cancelEditService service_with_video) = None \<and>
   serviceVideos (cancelEditService service_with_video) = [File ''clip.mp4'']"
  by (simp add: service_with_video_def editService_def cancelEditService_def living_room_def
      initial_def)

section \<open>The upload loops send a batch until the first refusal\<close>

lemma sent_until_error_append:
  "sent_until_error E k (xs @ ys) =
     (if refusal E k xs = None then xs @ sent_until_error E (k + length xs) ys
      else sent_until_error E k xs)"
  by (induction xs arbitrary: k) (auto split: option.splits)

lemma refusal_append:
  "refusal E k (xs @ ys) =
     (case refusal E k xs of Some m \<Rightarrow> Some m | None \<Rightarrow> refusal E (k + length xs) ys)"
  by (induction xs arbitrary: k) (auto split: option.splits)

lemma sent_all: "refusal E k qs = None \<Longrightarrow> sent_until_error E k qs = qs"
  by (induction qs arbitrary: k) (auto split: option.splits)

lemma refusal_None_iff: "refusal E k qs = None \<longleftrightarrow> (\<forall>j<length qs. error_of E (k + j) = None)"
proof (induction qs arbitrary: k)
  case Nil
  then show ?case by simp
next
  case (Cons q qs)
  show ?case
  proof (cases "error_of E k")
    case None
    have "(\<forall>j<Suc (length qs). error_of E (k + j) = None) \<longleftrightarrow>
          (\<forall>j<length qs. error_of E (Suc k + j) = None)"
      using None by (auto simp: less_Suc_eq_0_disj)
    then show ?thesis using None Cons [of "Suc k"] by simp
  next
    case (Some m)
    then show ?thesis by (auto intro: exI [of _ 0])
  qed
qed

lemma upload_files_refines:
  "upload_files E b t mk p i fs w =
     (map_option BackendError (refusal E (length (calls w)) (child_requests E b t mk p i (randoms w) fs)),
      w\<lparr>calls := calls w @ sent_until_error E (length (calls w)) (child_requests E b t mk p i (randoms w) fs),
        randoms := randoms w +
          length (filter is_upload (sent_until_error E (length (calls w)) (child_requests E b t mk p i (randoms w) fs)))\<rparr>)"
proof (induction fs arbitrary: i w)
  case Nil
  then show ?case by simp
next
  case (Cons f fs)
  show ?case
    by (simp add: Let_def send_def random_def child_path_def Cons split: option.splits)
qed

lemma upload_gallery_images_refines:
  "upload_gallery_images E v fs w =
     (map_option BackendError (refusal E (length (calls w)) (gallery_requests E v (randoms w) fs)),
      w\<lparr>calls := calls w @ sent_until_error E (length (calls w)) (gallery_requests E v (randoms w) fs),
        randoms := randoms w +
          length (filter is_upload (sent_until_error E (length (calls w)) (gallery_requests E v (randoms w) fs)))\<rparr>)"
proof (induction fs arbitrary: w)
  case Nil
  then show ?case by simp
next
  case (Cons f fs)
  show ?case
    by (simp add: Let_def send_def random_def gallery_path_def Cons split: option.splits)
qed

lemma length_child_requests [simp]: "length (child_requests E b t mk p i r fs) = 2 * length fs"
  by (induction fs arbitrary: i r) auto

lemma uploads_child_requests [simp]:
  "length (filter is_upload (child_requests E b t mk p i r fs)) = length fs"
  by (induction fs arbitrary: i r) auto

lemma length_gallery_requests [simp]: "length (gallery_requests E v r fs) = 2 * length fs"
  by (induction fs arbitrary: r) auto

lemma project_try_run:
  assumes "projectSchema_parse (current_year E) (project_form w) = Inr v"
  shows "fst (project_try E w) =
           map_option BackendError (refusal E (length (calls w)) (project_requests E w v))"
    and "calls (snd (project_try E w)) =
           calls w @ sent_until_error E (length (calls w)) (project_requests E w v) @
           (if refusal E (length (calls w)) (project_requests E w v) = None
            then [Select ''projects'' ''created_at'' False] else [])"
proof -
  define c where "c = length (calls w)"
  define pid where "pid = inserted_id E c"
  define R2 where "R2 = child_requests E ''project-images'' ''project_images''
           (project_image_row pid) pid 0 (randoms w) (images w)"
  define R3 where "R3 = child_requests E ''project-images'' ''project_videos''
           (project_video_row pid) pid 0 (randoms w + length (images w)) (projectVideos w)"
  have R: "project_requests E w v = InsertReturning ''projects'' (projectData v) # R2 @ R3"
    by (simp add: project_requests_def Let_def R2_def R3_def pid_def c_def)
  show "fst (project_try E w) =
           map_option BackendError (refusal E (length (calls w)) (project_requests E w v))"
    unfolding R
    by (simp add: project_try_def assms Let_def send_def upload_files_refines refusal_append
        sent_all R2_def R3_def pid_def c_def fetchProjects_def show_toast_def
        split: option.splits)
  show "calls (snd (project_try E w)) =
           calls w @ sent_until_error E (length (calls w)) (project_requests E w v) @
           (if refusal E (length (calls w)) (project_requests E w v) = None
            then [Select ''projects'' ''created_at'' False] else [])"
    unfolding R
    by (simp add: project_try_def assms Let_def send_def upload_files_refines refusal_append
        sent_until_error_append
        sent_all R2_def R3_def pid_def c_def fetchProjects_def show_toast_def
        split: option.splits)
qed

subsection \<open>Rows of a batch\<close>

lemma table_rows_append:
  "table_rows ok t k (xs @ ys) = table_rows ok t k xs @ table_rows ok t (k + length xs) ys"
  by (induction xs arbitrary: k) auto

lemma table_rows_prefix:
  "\<exists>n. table_rows ok t k (sent_until_error E k' qs) = take n (table_rows ok t k qs)"
proof (induction qs arbitrary: k k')
  case Nil
  then show ?case by simp
next
  case (Cons q qs)
  define X where "X = table_rows ok t k [q]"
  have full: "table_rows ok t k (q # qs) = X @ table_rows ok t (k + 1) qs"
    by (simp add: X_def)
  show ?case
  proof (cases "error_of E k'")
    case None
    from Cons [of "k + 1" "k' + 1"] obtain n where
      n: "table_rows ok t (k + 1) (sent_until_error E (k' + 1) qs) = take n (table_rows ok t (k + 1) qs)"
      by blast
    have "table_rows ok t k (sent_until_error E k' (q # qs)) = X @ take n (table_rows ok t (k + 1) qs)"
      using None n by (simp add: X_def)
    also have "\<dots> = take (length X + n) (table_rows ok t k (q # qs))"
      unfolding full by simp
    finally show ?thesis by blast
  next
    case (Some m)
    have "table_rows ok t k (sent_until_error E k' (q # qs)) = X"
      using Some by (simp add: X_def)
    also have "\<dots> = take (length X) (table_rows ok t k (q # qs))"
      unfolding full by simp
    finally show ?thesis by blast
  qed
qed

lemma table_rows_all_ok:
  "\<forall>j<length qs. ok (k + j) \<Longrightarrow> table_rows ok t k qs = table_rows (\<lambda>k. True) t k qs"
proof (induction qs arbitrary: k)
  case Nil
  then show ?case by simp
next
  case (Cons q qs)
  have "ok k" using Cons.prems by (auto dest: spec [of _ 0])
  moreover have "\<forall>j<length qs. ok (k + 1 + j)"
  proof (intro allI impI)
    fix j assume "j < length qs"
    then have "ok (k + Suc j)" using Cons.prems by (auto dest: spec [of _ "Suc j"])
    then show "ok (k + 1 + j)" by simp
  qed
  ultimately show ?case using Cons.IH [of "k + 1"] by (simp split: request.splits)
qed

lemma table_rows_shift:
  "table_rows (\<lambda>k. True) t k qs = table_rows (\<lambda>k. True) t k' qs"
  by (induction qs arbitrary: k k') auto

lemma first_refused:
  "n < length qs \<Longrightarrow> \<forall>j<n. error_of E (c + j) = None \<Longrightarrow> error_of E (c + n) = Some m \<Longrightarrow>
     refusal E c qs = Some m \<and> sent_until_error E c qs = take (Suc n) qs"
proof (induction qs arbitrary: c n)
  case Nil
  then show ?case by simp
next
  case (Cons q qs)
  show ?case
  proof (cases n)
    case 0
    then show ?thesis using Cons.prems by simp
  next
    case (Suc n')
    have e0: "error_of E c = None" using Cons.prems(2) Suc by (auto dest: spec [of _ 0])
    have a: "\<forall>j<n'. error_of E (c + 1 + j) = None"
    proof (intro allI impI)
      fix j assume "j < n'"
      then have "error_of E (c + Suc j) = None" using Cons.prems(2) Suc by auto
      then show "error_of E (c + 1 + j) = None" by simp
    qed
    have b: "n' < length qs" using Cons.prems(1) Suc by simp
    have d: "error_of E (c + 1 + n') = Some m" using Cons.prems(3) Suc by simp
    have "refusal E (c + 1) qs = Some m \<and> sent_until_error E (c + 1) qs = take (Suc n') qs"
      by (rule Cons.IH [OF b a d])
    then show ?thesis using e0 Suc by simp
  qed
qed

lemma child_requests_other_table:
  "t' \<noteq> t \<Longrightarrow> table_rows ok t' k (child_requests E b t mk p i r fs) = []"
  by (induction fs arbitrary: k i r) auto

lemma child_requests_column:
  assumes "\<And>u j. column c (mk u j) = g j"
  shows "map (column c) (table_rows (\<lambda>k. True) t k (child_requests E b t mk p i r fs))
         = map g [i..<i + length fs]"
proof (induction fs arbitrary: k i r)
  case Nil
  then show ?case by simp
next
  case (Cons f fs)
  have "[i..<i + length (f # fs)] = i # [i + 1..<i + 1 + length fs]"
    by (simp add: upt_rec)
  then show ?case using Cons [of "k + 1 + 1" "i + 1" "r + 1"] assms by simp
qed

lemma child_requests_rows_length:
  "length (table_rows (\<lambda>k. True) t k (child_requests E b t mk p i r fs)) = length fs"
  by (induction fs arbitrary: k i r) auto

lemma gallery_requests_rows_length:
  "length (table_rows (\<lambda>k. True) ''gallery'' k (gallery_requests E v r fs)) = length fs"
  by (induction fs arbitrary: k r) auto

lemma gallery_requests_column:
  assumes "\<And>u. column c (gallery_image_row v u) = g"
  shows "map (column c) (table_rows (\<lambda>k. True) t k (gallery_requests E v r fs))
         = replicate (length (table_rows (\<lambda>k. True) t k (gallery_requests E v r fs))) g"
  using assms by (induction fs arbitrary: k r) auto

lemma take_gallery_requests:
  "take (2 * k) (gallery_requests E v r fs) = gallery_requests E v r (take k fs)"
proof (induction fs arbitrary: k r)
  case Nil
  then show ?case by simp
next
  case (Cons f fs)
  then show ?case by (cases k) auto
qed

lemma gallery_requests_nth_upload:
  "k < length fs \<Longrightarrow> is_upload (gallery_requests E v r fs ! (2 * k))"
proof (induction fs arbitrary: k r)
  case Nil
  then show ?case by simp
next
  case (Cons f fs)
  then show ?case by (cases k) auto
qed

lemma gallery_requests_no_delete: "filter is_delete (gallery_requests E v r fs) = []"
  by (induction fs arbitrary: r) auto

lemma child_requests_no_delete: "filter is_delete (child_requests E b t mk p i r fs) = []"
  by (induction fs arbitrary: i r) auto

subsection \<open>The requests of a handler\<close>

lemma new_calls_append: "calls w' = calls w @ X \<Longrightarrow> new_calls w w' = X"
  by (simp add: new_calls_def)

lemma new_toasts_append: "toasts w' = toasts w @ X \<Longrightarrow> new_toasts w w' = X"
  by (simp add: new_toasts_def)

lemma project_try_toasts:
  "fst (project_try E w) \<noteq> None \<Longrightarrow> toasts (snd (project_try E w)) = toasts w"
  "fst (project_try E w) = None \<Longrightarrow>
     \<exists>ts. toasts (snd (project_try E w)) =
       toasts w @ Toast ''Success'' (Text ''Project created successfully'') False # ts"
  by (auto simp add: project_try_def Let_def send_def upload_files_refines
        fetchProjects_def show_toast_def
        split: option.splits sum.splits)

lemma gallery_try_run:
  assumes "gallerySchema_parse (gallery_form w) = Inr v" and "galleryMediaType w = image"
  shows "fst (gallery_try E w) =
           map_option BackendError
             (refusal E (length (calls w)) (gallery_requests E v (randoms w) (galleryImages w)))"
    and "calls (snd (gallery_try E w)) =
           calls w @
           sent_until_error E (length (calls w)) (gallery_requests E v (randoms w) (galleryImages w)) @
           (if refusal E (length (calls w)) (gallery_requests E v (randoms w) (galleryImages w)) = None
            then [Select ''gallery'' ''display_order'' True] else [])"
    and "fst (gallery_try E w) \<noteq> None \<Longrightarrow> toasts (snd (gallery_try E w)) = toasts w"
  by (simp_all add: gallery_try_def assms Let_def send_def upload_gallery_images_refines
        sent_all fetchGalleryItems_def show_toast_def
        split: option.splits)

lemma service_try_run:
  assumes "serviceSchema_parse (service_form w) = Inr v"
  shows "fst (service_try E w) =
           map_option BackendError (refusal E (length (calls w)) (service_requests E w v))"
    and "calls (snd (service_try E w)) =
           calls w @ sent_until_error E (length (calls w)) (service_requests E w v) @
           (if refusal E (length (calls w)) (service_requests E w v) = None
            then [Select ''services'' ''created_at'' False] else [])"
    and "fst (service_try E w) \<noteq> None \<Longrightarrow> toasts (snd (service_try E w)) = toasts w"
  by (simp_all add: service_try_def service_requests_def assms Let_def send_def upload_files_refines
        refusal_append sent_until_error_append cancelEditService_def
        sent_all fetchServices_def show_toast_def
        split: option.splits)

lemma table_rows_not_ok: "\<not> ok k \<Longrightarrow> table_rows ok t k [q] = []"
  by (cases q) simp_all

lemma table_rows_upload: "is_upload q \<Longrightarrow> table_rows ok t k [q] = []"
  by (cases q) simp_all

lemma handleGallerySubmit_run:
  assumes "galleryImages w \<noteq> []" and "galleryMediaType w = image"
  shows "calls (handleGallerySubmit E w) = calls (snd (gallery_try E w))"
    and "toasts (handleGallerySubmit E w) =
           toasts (snd (gallery_try E w)) @
           (case fst (gallery_try E w) of
              None \<Rightarrow> []
            | Some e \<Rightarrow> [Toast ''Error'' (error_message e) True])"
  using assms
  by (simp_all add: handleGallerySubmit_def Let_def show_toast_def split: prod.splits option.splits)

lemma filter_take_Nil: "filter P xs = [] \<Longrightarrow> filter P (take n xs) = []"
  by (metis filter_False filter_empty_conv in_set_takeD)

lemma handleSubmit_run:
  shows "calls (handleSubmit E w) = calls (snd (project_try E w))"
    and "toasts (handleSubmit E w) =
           toasts (snd (project_try E w)) @
           (case fst (project_try E w) of
              None \<Rightarrow> []
            | Some e \<Rightarrow> [Toast ''Error'' (error_message e) True])"
  by (simp_all add: handleSubmit_def Let_def show_toast_def split: prod.splits option.splits)

lemma handleServiceSubmit_run:
  shows "calls (handleServiceSubmit E w) = calls (snd (service_try E w))"
    and "toasts (handleServiceSubmit E w) =
           toasts (snd (service_try E w)) @
           (case fst (service_try E w) of
              None \<Rightarrow> []
            | Some e \<Rightarrow> [Toast ''Error'' (error_message e) True])"
  by (simp_all add: handleServiceSubmit_def Let_def show_toast_def split: prod.splits option.splits)

lemma project_try_invalid:
  "projectSchema_parse (current_year E) (project_form w) = Inl iss \<Longrightarrow>
     project_try E w = (Some (ZodError iss), w)"
  by (simp add: project_try_def)

lemma project_success_iff:
  "Toast ''Success'' (Text ''Project created successfully'') False
     \<in> set (new_toasts w (handleSubmit E w)) \<longleftrightarrow> fst (project_try E w) = None"
proof (cases "fst (project_try E w)")
  case None
  from project_try_toasts(2) [OF None] obtain ts where
    "toasts (snd (project_try E w)) =
       toasts w @ Toast ''Success'' (Text ''Project created successfully'') False # ts"
    by blast
  then show ?thesis using None by (simp add: handleSubmit_run new_toasts_def)
next
  case (Some e)
  then have "toasts (snd (project_try E w)) = toasts w"
    using project_try_toasts(1) [of E w] by simp
  then show ?thesis using Some by (simp add: handleSubmit_run new_toasts_def)
qed

lemma project_requests_rows:
  "table_rows (\<lambda>k. True) ''project_images'' k (project_requests E w v) =
     table_rows (\<lambda>k. True) ''project_images'' 0
       (child_requests E ''project-images'' ''project_images''
           (project_image_row (inserted_id E (length (calls w))))
           (inserted_id E (length (calls w))) 0 (randoms w) (images w))"
  "table_rows (\<lambda>k. True) ''project_videos'' k (project_requests E w v) =
     table_rows (\<lambda>k. True) ''project_videos'' 0
       (child_requests E ''project-images'' ''project_videos''
           (project_video_row (inserted_id E (length (calls w))))
           (inserted_id E (length (calls w))) 0 (randoms w + length (images w)) (projectVideos w))"
  using table_rows_shift [of "''project_images''" _ _ 0] table_rows_shift [of "''project_videos''" _ _ 0]
  by (simp_all add: project_requests_def Let_def table_rows_append child_requests_other_table)

lemma column_rows:
  "column ''display_order'' (project_image_row p u j) = Some (Num (int j))"
  "column ''is_primary'' (project_image_row p u j) = Some (Bool (j = 0))"
  "column ''display_order'' (project_video_row p u j) = Some (Num (int j))"
  "column ''is_primary'' (project_video_row p u j) = None"
  "column ''display_order'' (service_image_row p u j) = Some (Num (int j))"
  "column ''is_primary'' (service_image_row p u j) = Some (Bool (j = 0))"
  "column ''display_order'' (service_video_row p u j) = Some (Num (int j))"
  "column ''is_primary'' (service_video_row p u j) = None"
  "column ''display_order'' (gallery_image_row v u) = None"
  "column ''is_primary'' (gallery_image_row v u) = None"
  "column ''display_order'' (gallery_video_row v u) = None"
  "column ''is_primary'' (gallery_video_row v u) = None"
  by (simp_all add: column_def project_image_row_def project_video_row_def service_image_row_def
      service_video_row_def gallery_image_row_def gallery_video_row_def)

section \<open>Media batches\<close>

text \<open>
  C2: a gallery image batch on a valid form, in which the uploads and inserts of the
  files before index \<open>k\<close> succeed and the upload or the insert of file \<open>k\<close> is refused
  with message \<open>m\<close>. Then the rows of the files \<open>0..k-1\<close>, and only they, are
  committed to \<open>gallery\<close>; the handler sends no row delete and no file removal; the
  requests it sends are the first \<open>2k+1\<close> (upload refused) or \<open>2k+2\<close> (insert
  refused) requests of the whole batch, so nothing is sent for a file after \<open>k\<close>; and
  the one notice shown is the error with the backend's message.
\<close>

theorem gallery_batch_fails_fast:
  assumes img: "galleryMediaType w = image"
      and valid: "gallerySchema_parse (gallery_form w) = Inr v"
      and k: "k < length (galleryImages w)"
      and before: "\<forall>j < 2 * k. error_of E (length (calls w) + j) = None"
      and fails: "error_of E (length (calls w) + 2 * k) = Some m \<or>
                  (error_of E (length (calls w) + 2 * k) = None \<and>
                   error_of E (length (calls w) + 2 * k + 1) = Some m)"
  shows "committed_rows E ''gallery'' w (handleGallerySubmit E w) =
           table_rows (\<lambda>k. True) ''gallery'' 0
             (gallery_requests E v (randoms w) (take k (galleryImages w))) \<and>
         length (committed_rows E ''gallery'' w (handleGallerySubmit E w)) = k \<and>
         filter is_delete (new_calls w (handleGallerySubmit E w)) = [] \<and>
         new_calls w (handleGallerySubmit E w) =
           take (if error_of E (length (calls w) + 2 * k) = None then 2 * k + 2 else 2 * k + 1)
             (gallery_requests E v (randoms w) (galleryImages w)) \<and>
         new_toasts w (handleGallerySubmit E w) = [Toast ''Error'' (Text m) True]"
proof -
  define c where "c = length (calls w)"
  define R where "R = gallery_requests E v (randoms w) (galleryImages w)"
  define n where "n = (if error_of E (c + 2 * k) = None then 2 * k + 1 else 2 * k)"
  let ?ok = "\<lambda>k. error_of E k = None"
  have lenR: "length R = 2 * length (galleryImages w)" by (simp add: R_def)
  have n_lt: "n < length R" using k by (simp add: n_def lenR)
  have ok_before: "\<forall>j<n. error_of E (c + j) = None"
  proof (intro allI impI)
    fix j assume "j < n"
    then have "j < 2 * k \<or> (j = 2 * k \<and> error_of E (c + 2 * k) = None)"
      by (auto simp: n_def split: if_splits)
    then show "error_of E (c + j) = None" using before by (auto simp: c_def)
  qed
  have at_n: "error_of E (c + n) = Some m"
    using fails by (auto simp: n_def c_def)
  from first_refused [OF n_lt ok_before at_n]
  have ref: "refusal E c R = Some m" and sent: "sent_until_error E c R = take (Suc n) R"
    by simp_all
  have ne: "galleryImages w \<noteq> []" using k by auto
  have tr: "fst (gallery_try E w) = Some (BackendError m)"
    using gallery_try_run(1) [OF valid img, of E] ref by (simp add: c_def R_def)
  have cs: "calls (handleGallerySubmit E w) = calls w @ take (Suc n) R"
    using handleGallerySubmit_run(1) [OF ne img, of E] gallery_try_run(2) [OF valid img, of E]
      ref sent by (simp add: c_def R_def)
  have ts: "toasts (handleGallerySubmit E w) = toasts w @ [Toast ''Error'' (Text m) True]"
    using handleGallerySubmit_run(2) [OF ne img, of E] gallery_try_run(3) [OF valid img, of E] tr
    by simp
  have new: "new_calls w (handleGallerySubmit E w) = take (Suc n) R"
    by (rule new_calls_append [OF cs])
  have take2k: "take (2 * k) R = gallery_requests E v (randoms w) (take k (galleryImages w))"
    by (simp add: R_def take_gallery_requests)
  have rows_n: "table_rows (\<lambda>k. True) ''gallery'' c (take n R) =
                table_rows (\<lambda>k. True) ''gallery'' 0
                  (gallery_requests E v (randoms w) (take k (galleryImages w)))"
  proof (cases "error_of E (c + 2 * k) = None")
    case True
    then have "n = Suc (2 * k)" by (simp add: n_def)
    moreover have "2 * k < length R" using k by (simp add: lenR)
    ultimately have split: "take n R = take (2 * k) R @ [R ! (2 * k)]"
      by (simp add: take_Suc_conv_app_nth)
    have up: "is_upload (R ! (2 * k))"
      unfolding R_def by (rule gallery_requests_nth_upload [OF k])
    have "table_rows (\<lambda>k. True) ''gallery'' c (take n R) =
            table_rows (\<lambda>k. True) ''gallery'' c (take (2 * k) R) @
            table_rows (\<lambda>k. True) ''gallery'' (c + length (take (2 * k) R)) [R ! (2 * k)]"
      unfolding split by (rule table_rows_append)
    also have "table_rows (\<lambda>k. True) ''gallery'' (c + length (take (2 * k) R)) [R ! (2 * k)] = []"
      by (rule table_rows_upload [OF up])
    finally show ?thesis
      using table_rows_shift [of "''gallery''" c _ 0] by (simp add: take2k)
  next
    case False
    then have "n = 2 * k" by (simp add: n_def)
    then show ?thesis using table_rows_shift [of "''gallery''" c _ 0] by (simp add: take2k)
  qed
  have "committed_rows E ''gallery'' w (handleGallerySubmit E w) =
          table_rows ?ok ''gallery'' c (take (Suc n) R)"
    by (simp add: committed_rows_def new c_def)
  also have "\<dots> = table_rows ?ok ''gallery'' c (take n R) @ table_rows ?ok ''gallery'' (c + n) [R ! n]"
    using n_lt by (simp add: take_Suc_conv_app_nth table_rows_append min_def)
  also have "table_rows ?ok ''gallery'' (c + n) [R ! n] = []"
    by (rule table_rows_not_ok) (simp add: at_n)
  also have "table_rows ?ok ''gallery'' c (take n R) = table_rows (\<lambda>k. True) ''gallery'' c (take n R)"
    by (rule table_rows_all_ok) (use ok_before in simp)
  finally have committed: "committed_rows E ''gallery'' w (handleGallerySubmit E w) =
          table_rows (\<lambda>k. True) ''gallery'' 0
            (gallery_requests E v (randoms w) (take k (galleryImages w)))"
    by (simp add: rows_n)
  have len: "length (committed_rows E ''gallery'' w (handleGallerySubmit E w)) = k"
    unfolding committed using k by (simp add: gallery_requests_rows_length)
  have nodel: "filter is_delete (new_calls w (handleGallerySubmit E w)) = []"
    unfolding new R_def by (rule filter_take_Nil [OF gallery_requests_no_delete])
  have shape: "new_calls w (handleGallerySubmit E w) =
           take (if error_of E (length (calls w) + 2 * k) = None then 2 * k + 2 else 2 * k + 1)
             (gallery_requests E v (randoms w) (galleryImages w))"
    unfolding new by (simp add: n_def c_def R_def)
  have nt: "new_toasts w (handleGallerySubmit E w) = [Toast ''Error'' (Text m) True]"
    by (rule new_toasts_append [OF ts])
  show ?thesis using committed len nodel shape nt by blast
qed

text \<open>
  Witness for C2: three images selected, request number 2 (the second upload)
  refused: exactly one gallery row is committed.
\<close>

theorem gallery_batch_fails_fast_witness:
  "galleryMediaType three_images = image \<and>
   gallerySchema_parse (gallery_form three_images)
     = Inr \<lparr>g_title = None, g_description = None, g_category = ''team''\<rparr> \<and>
   1 < length (galleryImages three_images) \<and>
   error_of (env_fail 2 ''upload failed'') (length (calls three_images) + 0) = None \<and>
   error_of (env_fail 2 ''upload failed'') (length (calls three_images) + 1) = None \<and>
   error_of (env_fail 2 ''upload failed'') (length (calls three_images) + 2 * 1) = Some ''upload failed'' \<and>
   length (committed_rows (env_fail 2 ''upload failed'') ''gallery'' three_images
             (handleGallerySubmit (env_fail 2 ''upload failed'') three_images)) = 1 \<and>
   new_toasts three_images (handleGallerySubmit (env_fail 2 ''upload failed'') three_images)
     = [Toast ''Error'' (Text ''upload failed'') True]"
proof -
  have team: "trim ''team'' = ''team''" and nil: "trim [] = []"
    by (simp_all add: trim_def is_ws_def)
  have h1: "galleryMediaType three_images = image"
    by (simp add: three_images_def initial_def)
  have h2: "gallerySchema_parse (gallery_form three_images)
     = Inr \<lparr>g_title = None, g_description = None, g_category = ''team''\<rparr>"
    by (simp add: three_images_def initial_def gallery_form_def gallerySchema_parse_def
        gallerySchema_issues_def check_min_def check_max_def check_max_opt_def or_undefined_def
        team nil)
  have h3: "1 < length (galleryImages three_images)"
    by (simp add: three_images_def initial_def)
  have h4: "\<forall>j < 2 * 1. error_of (env_fail 2 ''upload failed'') (length (calls three_images) + j) = None"
    by (simp add: env_fail_def env_ok_def three_images_def initial_def)
  have h5: "error_of (env_fail 2 ''upload failed'') (length (calls three_images) + 2 * 1) = Some ''upload failed''"
    by (simp add: env_fail_def env_ok_def three_images_def initial_def)
  have h4': "error_of (env_fail 2 ''upload failed'') (length (calls three_images) + 0) = None"
    "error_of (env_fail 2 ''upload failed'') (length (calls three_images) + 1) = None"
    by (simp_all add: env_fail_def env_ok_def three_images_def initial_def)
  from gallery_batch_fails_fast [OF h1 h2 h3 h4 disjI1 [OF h5]] h1 h2 h3 h4' h5
  show ?thesis by blast
qed

text \<open>
  C1: a project submission that succeeds (the notice ``Project created successfully''
  is shown) with \<open>N\<close> selected images asks for exactly \<open>N\<close> rows of
  \<open>project_images\<close>, all of them committed; in insertion order their \<open>is_primary\<close>
  is true for the first and false for the others, and their \<open>display_order\<close> is
  \<open>0, 1, .., N-1\<close>.
\<close>

theorem project_images_rows:
  assumes "Toast ''Success'' (Text ''Project created successfully'') False
             \<in> set (new_toasts w (handleSubmit E w))"
  shows "length (inserted_rows ''project_images'' w (handleSubmit E w)) = length (images w) \<and>
         map (column ''is_primary'') (inserted_rows ''project_images'' w (handleSubmit E w))
           = primary_first (length (images w)) \<and>
         map (column ''display_order'') (inserted_rows ''project_images'' w (handleSubmit E w))
           = orders_from_zero (length (images w)) \<and>
         committed_rows E ''project_images'' w (handleSubmit E w)
           = inserted_rows ''project_images'' w (handleSubmit E w)"
proof -
  have ok: "fst (project_try E w) = None"
    using assms by (simp add: project_success_iff)
  obtain v where valid: "projectSchema_parse (current_year E) (project_form w) = Inr v"
  proof (cases "projectSchema_parse (current_year E) (project_form w)")
    case (Inl iss)
    then show ?thesis using ok by (simp add: project_try_invalid)
  next
    case (Inr v)
    then show ?thesis using that by blast
  qed
  define c where "c = length (calls w)"
  define R where "R = project_requests E w v"
  define B where "B = child_requests E ''project-images'' ''project_images''
           (project_image_row (inserted_id E c)) (inserted_id E c) 0 (randoms w) (images w)"
  have ref: "refusal E c R = None"
    using project_try_run(1) [OF valid] ok by (simp add: c_def R_def)
  have cs: "calls (handleSubmit E w) = calls w @ R @ [Select ''projects'' ''created_at'' False]"
    using project_try_run(2) [OF valid] ref sent_all [OF ref]
    by (simp add: handleSubmit_run c_def R_def)
  have new: "new_calls w (handleSubmit E w) = R @ [Select ''projects'' ''created_at'' False]"
    by (rule new_calls_append) (simp add: cs)
  have ins: "inserted_rows ''project_images'' w (handleSubmit E w) =
               table_rows (\<lambda>k. True) ''project_images'' 0 B"
    by (simp add: inserted_rows_def new table_rows_append R_def B_def c_def project_requests_rows(1))
  have all_ok: "\<forall>j<length R. error_of E (c + j) = None"
    using ref by (simp add: refusal_None_iff)
  have com: "committed_rows E ''project_images'' w (handleSubmit E w) =
               table_rows (\<lambda>k. True) ''project_images'' c R"
    using table_rows_all_ok [of R "\<lambda>k. error_of E k = None" c "''project_images''"] all_ok
    by (simp add: committed_rows_def new table_rows_append c_def)
  have com': "committed_rows E ''project_images'' w (handleSubmit E w)
           = inserted_rows ''project_images'' w (handleSubmit E w)"
    unfolding com ins by (simp add: R_def B_def c_def project_requests_rows(1))
  have len: "length (inserted_rows ''project_images'' w (handleSubmit E w)) = length (images w)"
    unfolding ins B_def by (rule child_requests_rows_length)
  have prim: "map (column ''is_primary'') (inserted_rows ''project_images'' w (handleSubmit E w))
           = primary_first (length (images w))"
    unfolding ins B_def primary_first_def
    using child_requests_column [of "''is_primary''" "project_image_row (inserted_id E c)" "\<lambda>j. Some (Bool (j = 0))"]
    by (simp add: column_rows)
  have ord: "map (column ''display_order'') (inserted_rows ''project_images'' w (handleSubmit E w))
           = orders_from_zero (length (images w))"
    unfolding ins B_def orders_from_zero_def
    using child_requests_column [of "''display_order''" "project_image_row (inserted_id E c)" "\<lambda>j. Some (Num (int j))"]
    by (simp add: column_rows)
  show ?thesis using len prim ord com' by blast
qed

text \<open>Witness for C1: the filled-in project form with two images, nothing refused.\<close>

theorem project_images_rows_witness:
  "Toast ''Success'' (Text ''Project created successfully'') False
     \<in> set (new_toasts kitchen_project (handleSubmit env_ok kitchen_project)) \<and>
   map (column ''is_primary'')
     (inserted_rows ''project_images'' kitchen_project (handleSubmit env_ok kitchen_project))
     = [Some (Bool True), Some (Bool False)] \<and>
   map (column ''display_order'')
     (inserted_rows ''project_images'' kitchen_project (handleSubmit env_ok kitchen_project))
     = [Some (Num 0), Some (Num 1)]"
proof -
  have tr: "trim ''Kitchen'' = ''Kitchen''" "trim ''New ceiling'' = ''New ceiling''"
    "trim ''ceilings'' = ''ceilings''" "trim [] = []"
    by (simp_all add: trim_def is_ws_def)
  have valid: "projectSchema_parse (current_year env_ok) (project_form kitchen_project)
      = Inr \<lparr>p_title = ''Kitchen'', p_description = ''New ceiling'', p_category = ''ceilings'',
             p_location = None, p_year_completed = None\<rparr>"
    by (simp add: kitchen_project_def initial_def project_form_def projectSchema_parse_def
        projectSchema_issues_def check_min_def check_max_def check_max_opt_def
        check_number_opt_def number_value_def or_undefined_def tr)
  have "refusal env_ok k qs = None" for k qs
    by (simp add: refusal_None_iff env_ok_def)
  then have "fst (project_try env_ok kitchen_project) = None"
    by (simp add: project_try_run(1) [OF valid])
  then have h: "Toast ''Success'' (Text ''Project created successfully'') False
     \<in> set (new_toasts kitchen_project (handleSubmit env_ok kitchen_project))"
    by (simp add: project_success_iff)
  have two: "length (images kitchen_project) = 2"
    by (simp add: kitchen_project_def initial_def)
  have "[0..<2] = [0, Suc 0]"
    by (simp add: upt_rec)
  then have "primary_first 2 = [Some (Bool True), Some (Bool False)]"
    and "orders_from_zero 2 = [Some (Num 0), Some (Num 1)]"
    by (simp_all add: primary_first_def orders_from_zero_def)
  with project_images_rows [OF h] h two show ?thesis by simp
qed

subsection \<open>The rows a handler asks to insert\<close>

lemma indexed_take:
  assumes "map f X = map g [0..<length X]"
  shows "map f (take n X) = map g [0..<length (take n X)]"
proof -
  have "map f (take n X) = take n (map f X)"
    by (simp add: take_map)
  also have "\<dots> = take n (map g [0..<length X])"
    by (simp only: assms)
  also have "\<dots> = map g (take n [0..<length X])"
    by (simp add: take_map)
  also have "take n [0..<length X] = [0..<min n (length X)]"
    by (cases "n \<le> length X") (simp_all add: min_def)
  finally show ?thesis by (simp add: min.commute)
qed

lemma replicate_take:
  assumes "map f X = replicate (length X) a"
  shows "map f (take n X) = replicate (length (take n X)) a"
proof -
  have "map f (take n X) = take n (map f X)"
    by (simp add: take_map)
  also have "\<dots> = take n (replicate (length X) a)"
    by (simp only: assms)
  finally show ?thesis by (simp add: min.commute)
qed

lemma project_try_calls_invalid:
  "projectSchema_parse (current_year E) (project_form w) = Inl iss \<Longrightarrow>
     calls (handleSubmit E w) = calls w"
  by (simp add: handleSubmit_run project_try_invalid)

lemma handleSubmit_inserted:
  "\<exists>n v. inserted_rows t w (handleSubmit E w)
           = take n (table_rows (\<lambda>k. True) t 0 (project_requests E w v))"
proof (cases "projectSchema_parse (current_year E) (project_form w)")
  case (Inl iss)
  then have "new_calls w (handleSubmit E w) = []"
    by (simp add: new_calls_def project_try_calls_invalid)
  then have "inserted_rows t w (handleSubmit E w) = take 0 (table_rows (\<lambda>k. True) t 0 (project_requests E w undefined))"
    by (simp add: inserted_rows_def)
  then show ?thesis by blast
next
  case (Inr v)
  define c where "c = length (calls w)"
  define S where "S = (if refusal E c (project_requests E w v) = None
            then [Select ''projects'' ''created_at'' False] else [])"
  have "calls (handleSubmit E w) = calls w @ sent_until_error E c (project_requests E w v) @ S"
    using project_try_run(2) [OF Inr] by (simp add: handleSubmit_run c_def S_def)
  then have new: "new_calls w (handleSubmit E w) = sent_until_error E c (project_requests E w v) @ S"
    by (rule new_calls_append)
  have S: "table_rows (\<lambda>k. True) t k S = []" for k
    by (simp add: S_def)
  obtain n where "table_rows (\<lambda>k. True) t c (sent_until_error E c (project_requests E w v))
      = take n (table_rows (\<lambda>k. True) t c (project_requests E w v))"
    using table_rows_prefix by blast
  then have "inserted_rows t w (handleSubmit E w)
      = take n (table_rows (\<lambda>k. True) t 0 (project_requests E w v))"
    using table_rows_shift [of t c _ 0]
    by (simp add: inserted_rows_def new table_rows_append S c_def)
  then show ?thesis by blast
qed

lemma project_requests_columns:
  "map (column ''display_order'') (table_rows (\<lambda>k. True) ''project_images'' 0 (project_requests E w v))
     = map (\<lambda>j. Some (Num (int j)))
         [0..<length (table_rows (\<lambda>k. True) ''project_images'' 0 (project_requests E w v))]"
  "map (column ''is_primary'') (table_rows (\<lambda>k. True) ''project_images'' 0 (project_requests E w v))
     = map (\<lambda>j. Some (Bool (j = 0)))
         [0..<length (table_rows (\<lambda>k. True) ''project_images'' 0 (project_requests E w v))]"
  "map (column ''display_order'') (table_rows (\<lambda>k. True) ''project_videos'' 0 (project_requests E w v))
     = map (\<lambda>j. Some (Num (int j)))
         [0..<length (table_rows (\<lambda>k. True) ''project_videos'' 0 (project_requests E w v))]"
  unfolding project_requests_rows
  using child_requests_column [of "''display_order''" "project_image_row (inserted_id E (length (calls w)))" "\<lambda>j. Some (Num (int j))"]
    child_requests_column [of "''is_primary''" "project_image_row (inserted_id E (length (calls w)))" "\<lambda>j. Some (Bool (j = 0))"]
    child_requests_column [of "''display_order''" "project_video_row (inserted_id E (length (calls w)))" "\<lambda>j. Some (Num (int j))"]
  by (simp_all add: column_rows child_requests_rows_length)

lemma service_try_invalid:
  "serviceSchema_parse (service_form w) = Inl iss \<Longrightarrow>
     service_try E w = (Some (ZodError iss), w)"
  by (simp add: service_try_def)

lemma gallery_try_invalid:
  "gallerySchema_parse (gallery_form w) = Inl iss \<Longrightarrow>
     gallery_try E w = (Some (ZodError iss), w)"
  by (simp add: gallery_try_def)

lemma handleServiceSubmit_inserted:
  "\<exists>n v. inserted_rows t w (handleServiceSubmit E w)
           = take n (table_rows (\<lambda>k. True) t 0 (service_requests E w v))"
proof (cases "serviceSchema_parse (service_form w)")
  case (Inl iss)
  then have "new_calls w (handleServiceSubmit E w) = []"
    by (simp add: new_calls_def handleServiceSubmit_run service_try_invalid)
  then have "inserted_rows t w (handleServiceSubmit E w)
      = take 0 (table_rows (\<lambda>k. True) t 0 (service_requests E w undefined))"
    by (simp add: inserted_rows_def)
  then show ?thesis by blast
next
  case (Inr v)
  define c where "c = length (calls w)"
  define S where "S = (if refusal E c (service_requests E w v) = None
            then [Select ''services'' ''created_at'' False] else [])"
  have "calls (handleServiceSubmit E w) = calls w @ sent_until_error E c (service_requests E w v) @ S"
    using service_try_run(2) [OF Inr] by (simp add: handleServiceSubmit_run c_def S_def)
  then have new: "new_calls w (handleServiceSubmit E w) = sent_until_error E c (service_requests E w v) @ S"
    by (rule new_calls_append)
  have S: "table_rows (\<lambda>k. True) t k S = []" for k
    by (simp add: S_def)
  obtain n where "table_rows (\<lambda>k. True) t c (sent_until_error E c (service_requests E w v))
      = take n (table_rows (\<lambda>k. True) t c (service_requests E w v))"
    using table_rows_prefix by blast
  then have "inserted_rows t w (handleServiceSubmit E w)
      = take n (table_rows (\<lambda>k. True) t 0 (service_requests E w v))"
    using table_rows_shift [of t c _ 0]
    by (simp add: inserted_rows_def new table_rows_append S c_def)
  then show ?thesis by blast
qed

lemma service_requests_columns:
  "map (column ''display_order'') (table_rows (\<lambda>k. True) ''service_images'' 0 (service_requests E w v))
     = map (\<lambda>j. Some (Num (int j)))
         [0..<length (table_rows (\<lambda>k. True) ''service_images'' 0 (service_requests E w v))]"
  "map (column ''is_primary'') (table_rows (\<lambda>k. True) ''service_images'' 0 (service_requests E w v))
     = map (\<lambda>j. Some (Bool (j = 0)))
         [0..<length (table_rows (\<lambda>k. True) ''service_images'' 0 (service_requests E w v))]"
  "map (column ''display_order'') (table_rows (\<lambda>k. True) ''service_videos'' 0 (service_requests E w v))
     = map (\<lambda>j. Some (Num (int j)))
         [0..<length (table_rows (\<lambda>k. True) ''service_videos'' 0 (service_requests E w v))]"
  using child_requests_column [of "''display_order''" "service_image_row (inserted_id E (length (calls w)))" "\<lambda>j. Some (Num (int j))"]
    child_requests_column [of "''is_primary''" "service_image_row (inserted_id E (length (calls w)))" "\<lambda>j. Some (Bool (j = 0))"]
    child_requests_column [of "''display_order''" "service_video_row (inserted_id E (length (calls w)))" "\<lambda>j. Some (Num (int j))"]
  by (simp_all add: service_requests_def Let_def table_rows_append child_requests_other_table
      column_rows child_requests_rows_length split: option.splits)

lemma gallery_try_video_run:
  assumes "gallerySchema_parse (gallery_form w) = Inr v" and "galleryMediaType w = video"
  shows "calls (snd (gallery_try E w)) =
           calls w @ Insert ''gallery'' (gallery_video_row v (trim (galleryVideoUrl w))) #
           (if error_of E (length (calls w)) = None
            then [Select ''gallery'' ''display_order'' True] else [])"
  by (simp add: gallery_try_def assms Let_def send_def fetchGalleryItems_def show_toast_def
        split: option.splits)

lemma handleGallerySubmit_calls:
  "calls (handleGallerySubmit E w) = calls w \<or>
   calls (handleGallerySubmit E w) = calls (snd (gallery_try E w))"
  by (simp add: handleGallerySubmit_def Let_def show_toast_def split: prod.splits option.splits)

lemma gallery_rows_no_column:
  assumes "\<And>v u. column c (gallery_image_row v u) = None"
      and "\<And>v u. column c (gallery_video_row v u) = None"
  shows "map (column c) (inserted_rows ''gallery'' w (handleGallerySubmit E w))
         = replicate (length (inserted_rows ''gallery'' w (handleGallerySubmit E w))) None"
proof -
  consider (same) "calls (handleGallerySubmit E w) = calls w"
    | (run) "calls (handleGallerySubmit E w) = calls (snd (gallery_try E w))"
    using handleGallerySubmit_calls by blast
  then show ?thesis
  proof cases
    case same
    then show ?thesis by (simp add: inserted_rows_def new_calls_def)
  next
    case run
    show ?thesis
    proof (cases "gallerySchema_parse (gallery_form w)")
      case (Inl iss)
      then show ?thesis using run
        by (simp add: inserted_rows_def new_calls_def gallery_try_invalid)
    next
      case (Inr v)
      show ?thesis
      proof (cases "galleryMediaType w")
        case image
        define c where "c = length (calls w)"
        define R where "R = gallery_requests E v (randoms w) (galleryImages w)"
        define S where "S = (if refusal E c R = None
            then [Select ''gallery'' ''display_order'' True] else [])"
        have "calls (handleGallerySubmit E w) = calls w @ sent_until_error E c R @ S"
          using gallery_try_run(2) [OF Inr image] run by (simp add: c_def R_def S_def)
        then have new: "new_calls w (handleGallerySubmit E w) = sent_until_error E c R @ S"
          by (rule new_calls_append)
        have S: "table_rows (\<lambda>k. True) ''gallery'' k S = []" for k
          by (simp add: S_def)
        obtain n where "table_rows (\<lambda>k. True) ''gallery'' c (sent_until_error E c R)
            = take n (table_rows (\<lambda>k. True) ''gallery'' c R)"
          using table_rows_prefix by blast
        then have ins: "inserted_rows ''gallery'' w (handleGallerySubmit E w)
            = take n (table_rows (\<lambda>k. True) ''gallery'' c R)"
          by (simp add: inserted_rows_def new table_rows_append S c_def)
        have "map (column c') (table_rows (\<lambda>k. True) ''gallery'' c R)
            = replicate (length (table_rows (\<lambda>k. True) ''gallery'' c R)) None"
          if "\<And>u. column c' (gallery_image_row v u) = None" for c'
          unfolding R_def using that by (rule gallery_requests_column)
        then show ?thesis unfolding ins using assms(1) by (intro replicate_take) blast
      next
        case video
        have "calls (handleGallerySubmit E w) =
           calls w @ Insert ''gallery'' (gallery_video_row v (trim (galleryVideoUrl w))) #
           (if error_of E (length (calls w)) = None
            then [Select ''gallery'' ''display_order'' True] else [])"
          using gallery_try_video_run [OF Inr video] run by simp
        then have "new_calls w (handleGallerySubmit E w) =
           Insert ''gallery'' (gallery_video_row v (trim (galleryVideoUrl w))) #
           (if error_of E (length (calls w)) = None
            then [Select ''gallery'' ''display_order'' True] else [])"
          by (rule new_calls_append)
        then show ?thesis using assms(2) by (simp add: inserted_rows_def)
      qed
    qed
  qed
qed

text \<open>
  C7, as stated, fails on the gallery: with two images uploaded and nothing refused,
  neither of the two committed \<open>gallery\<close> rows names a \<open>display_order\<close>, where the
  claim has them record 0 and 1.
\<close>

theorem gallery_rows_have_no_display_order:
  "map (column ''display_order'')
     (committed_rows env_ok ''gallery'' two_gallery_images
        (handleGallerySubmit env_ok two_gallery_images)) = [None, None]"
proof -
  have team: "trim ''team'' = ''team''" and nil: "trim [] = []"
    by (simp_all add: trim_def is_ws_def)
  have img: "galleryMediaType two_gallery_images = image"
    and ne: "galleryImages two_gallery_images \<noteq> []"
    and c0: "calls two_gallery_images = []"
    and fs: "galleryImages two_gallery_images = [File ''a.png'', File ''b.jpg'']"
    by (simp_all add: two_gallery_images_def initial_def)
  have valid: "gallerySchema_parse (gallery_form two_gallery_images)
     = Inr \<lparr>g_title = None, g_description = None, g_category = ''team''\<rparr>"
    by (simp add: two_gallery_images_def initial_def gallery_form_def gallerySchema_parse_def
        gallerySchema_issues_def check_min_def check_max_def check_max_opt_def or_undefined_def
        team nil)
  have ref: "refusal env_ok k qs = None" for k qs
    by (simp add: refusal_None_iff env_ok_def)
  have "calls (handleGallerySubmit env_ok two_gallery_images) =
          calls two_gallery_images @
          gallery_requests env_ok \<lparr>g_title = None, g_description = None, g_category = ''team''\<rparr>
            (randoms two_gallery_images) (galleryImages two_gallery_images) @
          [Select ''gallery'' ''display_order'' True]"
    using handleGallerySubmit_run(1) [OF ne img, of env_ok]
      gallery_try_run(2) [OF valid img, of env_ok]
    by (simp add: ref sent_all)
  then have "new_calls two_gallery_images (handleGallerySubmit env_ok two_gallery_images) =
          gallery_requests env_ok \<lparr>g_title = None, g_description = None, g_category = ''team''\<rparr>
            (randoms two_gallery_images) (galleryImages two_gallery_images) @
          [Select ''gallery'' ''display_order'' True]"
    by (rule new_calls_append)
  then show ?thesis
    by (simp add: committed_rows_def c0 fs env_ok_def column_rows)
qed

text \<open>
  In every run of \<open>handleSubmit\<close> and \<open>handleServiceSubmit\<close>, whatever the outcome
  and whatever the form holds, the rows asked to be inserted into \<open>project_images\<close>,
  \<open>project_videos\<close>, \<open>service_images\<close> and \<open>service_videos\<close> record, in insertion
  order, the display orders \<open>0, 1, ..\<close>, and the image rows record \<open>is_primary\<close> true
  for the first only. No row \<open>handleGallerySubmit\<close> asks to insert into \<open>gallery\<close>,
  for an image or for a video, names \<open>display_order\<close> or \<open>is_primary\<close>.
\<close>

lemma inserted_rows_order_and_primary:
  "map (column ''display_order'') (inserted_rows ''project_images'' w (handleSubmit E w))
     = orders_from_zero (length (inserted_rows ''project_images'' w (handleSubmit E w))) \<and>
   map (column ''is_primary'') (inserted_rows ''project_images'' w (handleSubmit E w))
     = primary_first (length (inserted_rows ''project_images'' w (handleSubmit E w))) \<and>
   map (column ''display_order'') (inserted_rows ''project_videos'' w (handleSubmit E w))
     = orders_from_zero (length (inserted_rows ''project_videos'' w (handleSubmit E w))) \<and>
   map (column ''display_order'') (inserted_rows ''service_images'' w (handleServiceSubmit E w))
     = orders_from_zero (length (inserted_rows ''service_images'' w (handleServiceSubmit E w))) \<and>
   map (column ''is_primary'') (inserted_rows ''service_images'' w (handleServiceSubmit E w))
     = primary_first (length (inserted_rows ''service_images'' w (handleServiceSubmit E w))) \<and>
   map (column ''display_order'') (inserted_rows ''service_videos'' w (handleServiceSubmit E w))
     = orders_from_zero (length (inserted_rows ''service_videos'' w (handleServiceSubmit E w))) \<and>
   map (column ''display_order'') (inserted_rows ''gallery'' w (handleGallerySubmit E w))
     = replicate (length (inserted_rows ''gallery'' w (handleGallerySubmit E w))) None \<and>
   map (column ''is_primary'') (inserted_rows ''gallery'' w (handleGallerySubmit E w))
     = replicate (length (inserted_rows ''gallery'' w (handleGallerySubmit E w))) None"
proof -
  obtain n1 v1 where p1: "inserted_rows ''project_images'' w (handleSubmit E w)
      = take n1 (table_rows (\<lambda>k. True) ''project_images'' 0 (project_requests E w v1))"
    using handleSubmit_inserted by blast
  obtain n2 v2 where p2: "inserted_rows ''project_videos'' w (handleSubmit E w)
      = take n2 (table_rows (\<lambda>k. True) ''project_videos'' 0 (project_requests E w v2))"
    using handleSubmit_inserted by blast
  obtain n3 v3 where s1: "inserted_rows ''service_images'' w (handleServiceSubmit E w)
      = take n3 (table_rows (\<lambda>k. True) ''service_images'' 0 (service_requests E w v3))"
    using handleServiceSubmit_inserted by blast
  obtain n4 v4 where s2: "inserted_rows ''service_videos'' w (handleServiceSubmit E w)
      = take n4 (table_rows (\<lambda>k. True) ''service_videos'' 0 (service_requests E w v4))"
    using handleServiceSubmit_inserted by blast
  have a: "map (column ''display_order'') (inserted_rows ''project_images'' w (handleSubmit E w))
     = orders_from_zero (length (inserted_rows ''project_images'' w (handleSubmit E w)))"
    unfolding p1 orders_from_zero_def by (rule indexed_take [OF project_requests_columns(1)])
  have b: "map (column ''is_primary'') (inserted_rows ''project_images'' w (handleSubmit E w))
     = primary_first (length (inserted_rows ''project_images'' w (handleSubmit E w)))"
    unfolding p1 primary_first_def by (rule indexed_take [OF project_requests_columns(2)])
  have c: "map (column ''display_order'') (inserted_rows ''project_videos'' w (handleSubmit E w))
     = orders_from_zero (length (inserted_rows ''project_videos'' w (handleSubmit E w)))"
    unfolding p2 orders_from_zero_def by (rule indexed_take [OF project_requests_columns(3)])
  have d: "map (column ''display_order'') (inserted_rows ''service_images'' w (handleServiceSubmit E w))
     = orders_from_zero (length (inserted_rows ''service_images'' w (handleServiceSubmit E w)))"
    unfolding s1 orders_from_zero_def by (rule indexed_take [OF service_requests_columns(1)])
  have e: "map (column ''is_primary'') (inserted_rows ''service_images'' w (handleServiceSubmit E w))
     = primary_first (length (inserted_rows ''service_images'' w (handleServiceSubmit E w)))"
    unfolding s1 primary_first_def by (rule indexed_take [OF service_requests_columns(2)])
  have f: "map (column ''display_order'') (inserted_rows ''service_videos'' w (handleServiceSubmit E w))
     = orders_from_zero (length (inserted_rows ''service_videos'' w (handleServiceSubmit E w)))"
    unfolding s2 orders_from_zero_def by (rule indexed_take [OF service_requests_columns(3)])
  have g: "map (column ''display_order'') (inserted_rows ''gallery'' w (handleGallerySubmit E w))
     = replicate (length (inserted_rows ''gallery'' w (handleGallerySubmit E w))) None"
    by (rule gallery_rows_no_column) (simp_all add: column_rows)
  have h: "map (column ''is_primary'') (inserted_rows ''gallery'' w (handleGallerySubmit E w))
     = replicate (length (inserted_rows ''gallery'' w (handleGallerySubmit E w))) None"
    by (rule gallery_rows_no_column) (simp_all add: column_rows)
  show ?thesis using a b c d e f g h by blast
qed

lemma child_requests_nth:
  "i < length fs \<Longrightarrow>
     child_requests E b t mk p i0 r fs ! (2 * i)
       = StorageUpload b (child_path E p (r + i) (fs ! i)) (fs ! i) \<and>
     child_requests E b t mk p i0 r fs ! (2 * i + 1)
       = Insert t (mk (public_url E b (child_path E p (r + i) (fs ! i))) (i0 + i))"
proof (induction fs arbitrary: i i0 r)
  case Nil
  then show ?case by simp
next
  case (Cons f fs)
  show ?case
  proof (cases i)
    case 0
    then show ?thesis by simp
  next
    case (Suc j)
    then have "j < length fs" using Cons.prems by simp
    from Cons.IH [OF this, of "i0 + 1" "r + 1"] show ?thesis using Suc by simp
  qed
qed

lemma gallery_requests_nth:
  "i < length fs \<Longrightarrow>
     gallery_requests E v r fs ! (2 * i)
       = StorageUpload ''gallery-images'' (gallery_path E (r + i) (fs ! i)) (fs ! i) \<and>
     gallery_requests E v r fs ! (2 * i + 1)
       = Insert ''gallery''
           (gallery_image_row v (public_url E ''gallery-images'' (gallery_path E (r + i) (fs ! i))))"
proof (induction fs arbitrary: i r)
  case Nil
  then show ?case by simp
next
  case (Cons f fs)
  show ?case
  proof (cases i)
    case 0
    then show ?thesis by simp
  next
    case (Suc j)
    then have "j < length fs" using Cons.prems by simp
    from Cons.IH [OF this, of "r + 1"] show ?thesis using Suc by simp
  qed
qed

lemma handleSubmit_requests:
  assumes "projectSchema_parse (current_year E) (project_form w) = Inr v"
  shows "new_calls w (handleSubmit E w) =
           sent_until_error E (length (calls w)) (project_requests E w v) @
           (if refusal E (length (calls w)) (project_requests E w v) = None
            then [Select ''projects'' ''created_at'' False] else [])"
  by (rule new_calls_append) (simp add: handleSubmit_run project_try_run(2) [OF assms])

lemma handleServiceSubmit_requests:
  assumes "serviceSchema_parse (service_form w) = Inr v"
  shows "new_calls w (handleServiceSubmit E w) =
           sent_until_error E (length (calls w)) (service_requests E w v) @
           (if refusal E (length (calls w)) (service_requests E w v) = None
            then [Select ''services'' ''created_at'' False] else [])"
  by (rule new_calls_append) (simp add: handleServiceSubmit_run service_try_run(2) [OF assms])

lemma handleGallerySubmit_requests:
  assumes "gallerySchema_parse (gallery_form w) = Inr v"
      and "galleryMediaType w = image" and "galleryImages w \<noteq> []"
  shows "new_calls w (handleGallerySubmit E w) =
           sent_until_error E (length (calls w))
             (gallery_requests E v (randoms w) (galleryImages w)) @
           (if refusal E (length (calls w))
                 (gallery_requests E v (randoms w) (galleryImages w)) = None
            then [Select ''gallery'' ''display_order'' True] else [])"
  by (rule new_calls_append)
     (simp add: handleGallerySubmit_run(1) [OF assms(3,2)] gallery_try_run(2) [OF assms(1,2)])

text \<open>
  C7, amended: a project, service or gallery image submission on a valid form sends
  exactly the requests of its batch, in order, up to and including the first one
  the backend refuses (and then the list refresh when none is refused). In a batch
  of a project or a service, the requests number \<open>2i\<close> and \<open>2i+1\<close> are the upload
  of the file at index \<open>i\<close> and the insert of the row for that file, whose
  \<open>display_order\<close> is \<open>i\<close> and, for an image row, whose \<open>is_primary\<close> is true for
  \<open>i = 0\<close> only. In a gallery batch they are the upload of the file at index \<open>i\<close>
  and the insert of a row that names neither \<open>display_order\<close> nor \<open>is_primary\<close>.
\<close>

theorem media_rows_for_files:
  "(projectSchema_parse (current_year E) (project_form w) = Inr pv \<longrightarrow>
      new_calls w (handleSubmit E w) =
        sent_until_error E (length (calls w)) (project_requests E w pv) @
        (if refusal E (length (calls w)) (project_requests E w pv) = None
         then [Select ''projects'' ''created_at'' False] else []) \<and>
      project_requests E w pv =
        InsertReturning ''projects'' (projectData pv) #
        child_requests E ''project-images'' ''project_images''
          (project_image_row (inserted_id E (length (calls w))))
          (inserted_id E (length (calls w))) 0 (randoms w) (images w) @
        child_requests E ''project-images'' ''project_videos''
          (project_video_row (inserted_id E (length (calls w))))
          (inserted_id E (length (calls w))) 0 (randoms w + length (images w))
          (projectVideos w)) \<and>
   (serviceSchema_parse (service_form w) = Inr sv \<longrightarrow>
      new_calls w (handleServiceSubmit E w) =
        sent_until_error E (length (calls w)) (service_requests E w sv) @
        (if refusal E (length (calls w)) (service_requests E w sv) = None
         then [Select ''services'' ''created_at'' False] else []) \<and>
      (editing (editingService w) = None \<longrightarrow>
         service_requests E w sv =
           InsertReturning ''services'' (serviceData sv) #
           child_requests E ''service-images'' ''service_images''
             (service_image_row (inserted_id E (length (calls w))))
             (inserted_id E (length (calls w))) 0 (randoms w) (serviceImages w) @
           child_requests E ''service-images'' ''service_videos''
             (service_video_row (inserted_id E (length (calls w))))
             (inserted_id E (length (calls w))) 0 (randoms w + length (serviceImages w))
             (serviceVideos w))) \<and>
   (gallerySchema_parse (gallery_form w) = Inr gv \<longrightarrow>
      galleryMediaType w = image \<longrightarrow> galleryImages w \<noteq> [] \<longrightarrow>
      new_calls w (handleGallerySubmit E w) =
        sent_until_error E (length (calls w))
          (gallery_requests E gv (randoms w) (galleryImages w)) @
        (if refusal E (length (calls w))
              (gallery_requests E gv (randoms w) (galleryImages w)) = None
         then [Select ''gallery'' ''display_order'' True] else [])) \<and>
   (\<forall>i<length fs.
      child_requests E b t mk p 0 r fs ! (2 * i)
        = StorageUpload b (child_path E p (r + i) (fs ! i)) (fs ! i) \<and>
      child_requests E b t mk p 0 r fs ! (2 * i + 1)
        = Insert t (mk (public_url E b (child_path E p (r + i) (fs ! i))) i)) \<and>
   (\<forall>i<length fs.
      gallery_requests E gv r fs ! (2 * i)
        = StorageUpload ''gallery-images'' (gallery_path E (r + i) (fs ! i)) (fs ! i) \<and>
      gallery_requests E gv r fs ! (2 * i + 1)
        = Insert ''gallery''
            (gallery_image_row gv
               (public_url E ''gallery-images'' (gallery_path E (r + i) (fs ! i))))) \<and>
   column ''display_order'' (project_image_row p u i) = Some (Num (int i)) \<and>
   column ''is_primary'' (project_image_row p u i) = Some (Bool (i = 0)) \<and>
   column ''display_order'' (project_video_row p u i) = Some (Num (int i)) \<and>
   column ''display_order'' (service_image_row p u i) = Some (Num (int i)) \<and>
   column ''is_primary'' (service_image_row p u i) = Some (Bool (i = 0)) \<and>
   column ''display_order'' (service_video_row p u i) = Some (Num (int i)) \<and>
   column ''display_order'' (gallery_image_row gv u) = None \<and>
   column ''is_primary'' (gallery_image_row gv u) = None"
proof -
  have pr: "project_requests E w pv =
        InsertReturning ''projects'' (projectData pv) #
        child_requests E ''project-images'' ''project_images''
          (project_image_row (inserted_id E (length (calls w))))
          (inserted_id E (length (calls w))) 0 (randoms w) (images w) @
        child_requests E ''project-images'' ''project_videos''
          (project_video_row (inserted_id E (length (calls w))))
          (inserted_id E (length (calls w))) 0 (randoms w + length (images w))
          (projectVideos w)"
    by (simp add: project_requests_def Let_def)
  have sr: "service_requests E w sv =
           InsertReturning ''services'' (serviceData sv) #
           child_requests E ''service-images'' ''service_images''
             (service_image_row (inserted_id E (length (calls w))))
             (inserted_id E (length (calls w))) 0 (randoms w) (serviceImages w) @
           child_requests E ''service-images'' ''service_videos''
             (service_video_row (inserted_id E (length (calls w))))
             (inserted_id E (length (calls w))) 0 (randoms w + length (serviceImages w))
             (serviceVideos w)" if "editing (editingService w) = None"
    using that by (simp add: service_requests_def Let_def)
  have cn: "\<forall>i<length fs.
      child_requests E b t mk p 0 r fs ! (2 * i)
        = StorageUpload b (child_path E p (r + i) (fs ! i)) (fs ! i) \<and>
      child_requests E b t mk p 0 r fs ! (2 * i + 1)
        = Insert t (mk (public_url E b (child_path E p (r + i) (fs ! i))) i)"
    using child_requests_nth [of _ fs E b t mk p 0 r] by simp
  have gn: "\<forall>i<length fs.
      gallery_requests E gv r fs ! (2 * i)
        = StorageUpload ''gallery-images'' (gallery_path E (r + i) (fs ! i)) (fs ! i) \<and>
      gallery_requests E gv r fs ! (2 * i + 1)
        = Insert ''gallery''
            (gallery_image_row gv
               (public_url E ''gallery-images'' (gallery_path E (r + i) (fs ! i))))"
    using gallery_requests_nth [of _ fs E gv r] by simp
  show ?thesis
    using handleSubmit_requests [of E w pv] handleServiceSubmit_requests [of w sv E]
      handleGallerySubmit_requests [of w gv E] pr sr cn gn
    by (simp add: column_rows)
qed

text \<open>
  Witness for C7: the three forms filled in and nothing refused; the requests of
  each submission in full, and the insert for the file at index 1 of a batch.
\<close>

theorem media_rows_for_files_witness:
  "projectSchema_parse (current_year env_ok) (project_form filled_forms)
     = Inr \<lparr>p_title = ''Kitchen'', p_description = ''New ceiling'', p_category = ''ceilings'',
            p_location = None, p_year_completed = None\<rparr> \<and>
   serviceSchema_parse (service_form filled_forms)
     = Inr \<lparr>sv_title = ''Lounge'', sv_slug = ''lounge'', sv_short_description = None,
            sv_description = ''Ceilings'', sv_icon = None\<rparr> \<and>
   editing (editingService filled_forms) = None \<and>
   gallerySchema_parse (gallery_form filled_forms)
     = Inr \<lparr>g_title = None, g_description = None, g_category = ''team''\<rparr> \<and>
   galleryMediaType filled_forms = image \<and>
   galleryImages filled_forms \<noteq> [] \<and>
   1 < length [File ''a.png'', File ''b.jpg''] \<and>
   new_calls filled_forms (handleSubmit env_ok filled_forms)
     = [InsertReturning ''projects''
          [(''title'', Str ''Kitchen''), (''description'', Str ''New ceiling''),
           (''category'', Str ''ceilings'')],
        StorageUpload ''project-images'' ''row/0.5.png'' (File ''a.png''),
        Insert ''project_images''
          [(''project_id'', Str ''row''),
           (''image_url'', Str ''https://cdn.example/project-images/row/0.5.png''),
           (''is_primary'', Bool True), (''display_order'', Num 0)],
        StorageUpload ''project-images'' ''row/0.51.jpg'' (File ''b.jpg''),
        Insert ''project_images''
          [(''project_id'', Str ''row''),
           (''image_url'', Str ''https://cdn.example/project-images/row/0.51.jpg''),
           (''is_primary'', Bool False), (''display_order'', Num 1)],
        Select ''projects'' ''created_at'' False] \<and>
   new_calls filled_forms (handleServiceSubmit env_ok filled_forms)
     = [InsertReturning ''services''
          [(''title'', Str ''Lounge''), (''slug'', Str ''lounge''),
           (''description'', Str ''Ceilings'')],
        StorageUpload ''service-images'' ''row/0.5.png'' (File ''s.png''),
        Insert ''service_images''
          [(''service_id'', Str ''row''),
           (''image_url'', Str ''https://cdn.example/service-images/row/0.5.png''),
           (''is_primary'', Bool True), (''display_order'', Num 0)],
        Select ''services'' ''created_at'' False] \<and>
   new_calls filled_forms (handleGallerySubmit env_ok filled_forms)
     = [StorageUpload ''gallery-images'' ''0.5.png'' (File ''a.png''),
        Insert ''gallery''
          [(''image_url'', Str ''https://cdn.example/gallery-images/0.5.png''),
           (''title'', Null), (''description'', Null), (''category'', Str ''team''),
           (''media_type'', Str ''image'')],
        StorageUpload ''gallery-images'' ''0.51.jpg'' (File ''b.jpg''),
        Insert ''gallery''
          [(''image_url'', Str ''https://cdn.example/gallery-images/0.51.jpg''),
           (''title'', Null), (''description'', Null), (''category'', Str ''team''),
           (''media_type'', Str ''image'')],
        Select ''gallery'' ''display_order'' True] \<and>
   child_requests env_ok ''project-images'' ''project_images'' (project_image_row ''row'')
       ''row'' 0 0 [File ''a.png'', File ''b.jpg''] ! (2 * 1 + 1)
     = Insert ''project_images''
         [(''project_id'', Str ''row''),
          (''image_url'', Str ''https://cdn.example/project-images/row/0.51.jpg''),
          (''is_primary'', Bool False), (''display_order'', Num 1)] \<and>
   gallery_requests env_ok \<lparr>g_title = None, g_description = None, g_category = ''team''\<rparr> 0
       [File ''a.png'', File ''b.jpg''] ! (2 * 1 + 1)
     = Insert ''gallery''
         [(''image_url'', Str ''https://cdn.example/gallery-images/0.51.jpg''),
          (''title'', Null), (''description'', Null), (''category'', Str ''team''),
          (''media_type'', Str ''image'')]"
proof -
  let ?pv = "\<lparr>p_title = ''Kitchen'', p_description = ''New ceiling'', p_category = ''ceilings'',
            p_location = None, p_year_completed = None\<rparr>"
  let ?sv = "\<lparr>sv_title = ''Lounge'', sv_slug = ''lounge'', sv_short_description = None,
            sv_description = ''Ceilings'', sv_icon = None\<rparr>"
  let ?gv = "\<lparr>g_title = None, g_description = None, g_category = ''team''\<rparr>"
  let ?fs = "[File ''a.png'', File ''b.jpg'']"
  have tr: "trim ''Kitchen'' = ''Kitchen''" "trim ''New ceiling'' = ''New ceiling''"
    "trim ''ceilings'' = ''ceilings''" "trim [] = []" "trim ''Lounge'' = ''Lounge''"
    "trim ''lounge'' = ''lounge''" "trim ''Ceilings'' = ''Ceilings''" "trim ''team'' = ''team''"
    by (simp_all add: trim_def is_ws_def)
  have f: "calls filled_forms = []" "randoms filled_forms = 0"
    "images filled_forms = ?fs" "projectVideos filled_forms = []"
    "serviceImages filled_forms = [File ''s.png'']" "serviceVideos filled_forms = []"
    "galleryImages filled_forms = ?fs" "editingService filled_forms = None"
    by (simp_all add: filled_forms_def initial_def)
  have hp: "projectSchema_parse (current_year env_ok) (project_form filled_forms) = Inr ?pv"
    by (simp add: filled_forms_def initial_def project_form_def projectSchema_parse_def
        projectSchema_issues_def check_min_def check_max_def check_max_opt_def
        check_number_opt_def number_value_def or_undefined_def tr)
  have hs: "serviceSchema_parse (service_form filled_forms) = Inr ?sv"
    by (simp add: filled_forms_def initial_def service_form_def serviceSchema_parse_def
        serviceSchema_issues_def check_min_def check_max_def check_max_opt_def
        or_undefined_def tr)
  have he: "editing (editingService filled_forms) = None"
    by (simp add: f editing_def)
  have hg: "gallerySchema_parse (gallery_form filled_forms) = Inr ?gv"
    by (simp add: filled_forms_def initial_def gallery_form_def gallerySchema_parse_def
        gallerySchema_issues_def check_min_def check_max_def check_max_opt_def
        or_undefined_def tr)
  have hi: "galleryMediaType filled_forms = image" "galleryImages filled_forms \<noteq> []"
    by (simp_all add: filled_forms_def initial_def)
  have hl: "1 < length ?fs" by simp
  have ref: "refusal env_ok k qs = None" for k qs
    by (simp add: refusal_None_iff env_ok_def)
  have ev: "inserted_id env_ok 0 = ''row''" "random_text env_ok 0 = ''0.5''"
    "random_text env_ok (Suc 0) = ''0.51''"
    "public_url env_ok b q = ''https://cdn.example/'' @ b @ ''/'' @ q" for b q
    by (simp_all add: env_ok_def)
  have ext: "split_pop CHR ''.'' ''a.png'' = ''png''" "split_pop CHR ''.'' ''b.jpg'' = ''jpg''"
    "split_pop CHR ''.'' ''s.png'' = ''png''"
    by (simp_all add: split_pop_def)
  note T = media_rows_for_files [where E = env_ok and w = filled_forms and pv = ?pv
      and sv = ?sv and gv = ?gv and fs = ?fs and b = "''project-images''"
      and t = "''project_images''" and mk = "project_image_row ''row''" and p = "''row''"
      and r = 0]
  from T hp have P: "new_calls filled_forms (handleSubmit env_ok filled_forms) =
        sent_until_error env_ok (length (calls filled_forms))
          (project_requests env_ok filled_forms ?pv) @
        (if refusal env_ok (length (calls filled_forms))
              (project_requests env_ok filled_forms ?pv) = None
         then [Select ''projects'' ''created_at'' False] else [])"
    and PR: "project_requests env_ok filled_forms ?pv =
        InsertReturning ''projects'' (projectData ?pv) #
        child_requests env_ok ''project-images'' ''project_images''
          (project_image_row (inserted_id env_ok (length (calls filled_forms))))
          (inserted_id env_ok (length (calls filled_forms))) 0 (randoms filled_forms)
          (images filled_forms) @
        child_requests env_ok ''project-images'' ''project_videos''
          (project_video_row (inserted_id env_ok (length (calls filled_forms))))
          (inserted_id env_ok (length (calls filled_forms))) 0
          (randoms filled_forms + length (images filled_forms)) (projectVideos filled_forms)"
    by blast+
  from T hs he have S: "new_calls filled_forms (handleServiceSubmit env_ok filled_forms) =
        sent_until_error env_ok (length (calls filled_forms))
          (service_requests env_ok filled_forms ?sv) @
        (if refusal env_ok (length (calls filled_forms))
              (service_requests env_ok filled_forms ?sv) = None
         then [Select ''services'' ''created_at'' False] else [])"
    and SR: "service_requests env_ok filled_forms ?sv =
           InsertReturning ''services'' (serviceData ?sv) #
           child_requests env_ok ''service-images'' ''service_images''
             (service_image_row (inserted_id env_ok (length (calls filled_forms))))
             (inserted_id env_ok (length (calls filled_forms))) 0 (randoms filled_forms)
             (serviceImages filled_forms) @
           child_requests env_ok ''service-images'' ''service_videos''
             (service_video_row (inserted_id env_ok (length (calls filled_forms))))
             (inserted_id env_ok (length (calls filled_forms))) 0
             (randoms filled_forms + length (serviceImages filled_forms))
             (serviceVideos filled_forms)"
    by blast+
  from T hg hi have G: "new_calls filled_forms (handleGallerySubmit env_ok filled_forms) =
        sent_until_error env_ok (length (calls filled_forms))
          (gallery_requests env_ok ?gv (randoms filled_forms) (galleryImages filled_forms)) @
        (if refusal env_ok (length (calls filled_forms))
              (gallery_requests env_ok ?gv (randoms filled_forms) (galleryImages filled_forms)) = None
         then [Select ''gallery'' ''display_order'' True] else [])"
    by blast
  from T hl have C: "child_requests env_ok ''project-images'' ''project_images''
       (project_image_row ''row'') ''row'' 0 0 ?fs ! (2 * 1 + 1)
     = Insert ''project_images''
         (project_image_row ''row''
            (public_url env_ok ''project-images'' (child_path env_ok ''row'' (0 + 1) (?fs ! 1))) 1)"
    and GN: "gallery_requests env_ok ?gv 0 ?fs ! (2 * 1 + 1)
     = Insert ''gallery''
         (gallery_image_row ?gv
            (public_url env_ok ''gallery-images'' (gallery_path env_ok (0 + 1) (?fs ! 1))))"
    by blast+
  have p: "new_calls filled_forms (handleSubmit env_ok filled_forms)
     = [InsertReturning ''projects''
          [(''title'', Str ''Kitchen''), (''description'', Str ''New ceiling''),
           (''category'', Str ''ceilings'')],
        StorageUpload ''project-images'' ''row/0.5.png'' (File ''a.png''),
        Insert ''project_images''
          [(''project_id'', Str ''row''),
           (''image_url'', Str ''https://cdn.example/project-images/row/0.5.png''),
           (''is_primary'', Bool True), (''display_order'', Num 0)],
        StorageUpload ''project-images'' ''row/0.51.jpg'' (File ''b.jpg''),
        Insert ''project_images''
          [(''project_id'', Str ''row''),
           (''image_url'', Str ''https://cdn.example/project-images/row/0.51.jpg''),
           (''is_primary'', Bool False), (''display_order'', Num 1)],
        Select ''projects'' ''created_at'' False]"
  proof -
    have "new_calls filled_forms (handleSubmit env_ok filled_forms) =
            project_requests env_ok filled_forms ?pv @ [Select ''projects'' ''created_at'' False]"
      unfolding P by (simp add: ref sent_all)
    then show ?thesis
      unfolding PR
      by (simp add: f ev ext child_path_def projectData_def project_image_row_def)
  qed
  have s: "new_calls filled_forms (handleServiceSubmit env_ok filled_forms)
     = [InsertReturning ''services''
          [(''title'', Str ''Lounge''), (''slug'', Str ''lounge''),
           (''description'', Str ''Ceilings'')],
        StorageUpload ''service-images'' ''row/0.5.png'' (File ''s.png''),
        Insert ''service_images''
          [(''service_id'', Str ''row''),
           (''image_url'', Str ''https://cdn.example/service-images/row/0.5.png''),
           (''is_primary'', Bool True), (''display_order'', Num 0)],
        Select ''services'' ''created_at'' False]"
  proof -
    have "new_calls filled_forms (handleServiceSubmit env_ok filled_forms) =
            service_requests env_ok filled_forms ?sv @ [Select ''services'' ''created_at'' False]"
      unfolding S by (simp add: ref sent_all)
    then show ?thesis
      unfolding SR
      by (simp add: f ev ext child_path_def serviceData_def service_image_row_def)
  qed
  have g: "new_calls filled_forms (handleGallerySubmit env_ok filled_forms)
     = [StorageUpload ''gallery-images'' ''0.5.png'' (File ''a.png''),
        Insert ''gallery''
          [(''image_url'', Str ''https://cdn.example/gallery-images/0.5.png''),
           (''title'', Null), (''description'', Null), (''category'', Str ''team''),
           (''media_type'', Str ''image'')],
        StorageUpload ''gallery-images'' ''0.51.jpg'' (File ''b.jpg''),
        Insert ''gallery''
          [(''image_url'', Str ''https://cdn.example/gallery-images/0.51.jpg''),
           (''title'', Null), (''description'', Null), (''category'', Str ''team''),
           (''media_type'', Str ''image'')],
        Select ''gallery'' ''display_order'' True]"
  proof -
    have "new_calls filled_forms (handleGallerySubmit env_ok filled_forms) =
            gallery_requests env_ok ?gv (randoms filled_forms) (galleryImages filled_forms) @
            [Select ''gallery'' ''display_order'' True]"
      unfolding G by (simp add: ref sent_all)
    then show ?thesis
      by (simp add: f ev ext gallery_path_def gallery_image_row_def or_null_def)
  qed
  have c: "child_requests env_ok ''project-images'' ''project_images'' (project_image_row ''row'')
       ''row'' 0 0 ?fs ! (2 * 1 + 1)
     = Insert ''project_images''
         [(''project_id'', Str ''row''),
          (''image_url'', Str ''https://cdn.example/project-images/row/0.51.jpg''),
          (''is_primary'', Bool False), (''display_order'', Num 1)]"
    unfolding C by (simp add: ev ext child_path_def project_image_row_def)
  have gn: "gallery_requests env_ok ?gv 0 ?fs ! (2 * 1 + 1)
     = Insert ''gallery''
         [(''image_url'', Str ''https://cdn.example/gallery-images/0.51.jpg''),
          (''title'', Null), (''description'', Null), (''category'', Str ''team''),
          (''media_type'', Str ''image'')]"
    unfolding GN by (simp add: ev ext gallery_path_def gallery_image_row_def or_null_def)
  show ?thesis using hp hs he hg hi hl p s g c gn by blast
qed

section \<open>Deleting\<close>

text \<open>
  C5: a confirmed \<open>deleteGalleryItem\<close> sends the delete of the gallery row, for every
  behaviour of the backend (so whether the file removal before it succeeds or
  fails) and for every image URL, absent or present.
\<close>

theorem gallery_delete_always_issued:
  "Delete ''gallery'' ''id'' (Str item_id)
     \<in> set (new_calls w (deleteGalleryItem E True item_id imageUrl w))"
  by (simp add: deleteGalleryItem_def send_def Let_def new_calls_def fetchGalleryItems_def
      show_toast_def split: option.splits)




section \<open>Service submissions\<close>

lemma service_form_accepted:
  assumes "1 \<le> length (trim (serviceTitle w))" and "length (trim (serviceTitle w)) \<le> 200"
      and "1 \<le> length (trim (serviceSlug w))" and "length (trim (serviceSlug w)) \<le> 200"
      and "length (trim (serviceShortDesc w)) \<le> 500"
      and "1 \<le> length (trim (serviceDescription w))"
      and "length (trim (serviceIcon w)) \<le> 100"
  shows "serviceSchema_parse (service_form w) =
           Inr \<lparr>sv_title = trim (serviceTitle w),
                sv_slug = trim (serviceSlug w),
                sv_short_description = or_undefined (trim (serviceShortDesc w)),
                sv_description = trim (serviceDescription w),
                sv_icon = or_undefined (trim (serviceIcon w))\<rparr>"
  using assms
  by (auto simp add: serviceSchema_parse_def serviceSchema_issues_def service_form_def
      check_min_def check_max_def check_max_opt_def or_undefined_def trim_idem)

lemma service_requests_first:
  "\<exists>rest. service_requests E w v =
     (case editing (editingService w) of
        None \<Rightarrow> InsertReturning ''services'' (serviceData v)
      | Some edited \<Rightarrow> Update ''services'' (serviceData v) ''id'' (Str edited)) # rest"
  by (simp add: service_requests_def Let_def split: option.splits)

text \<open>
  C6, as stated, fails while a service is being edited: the slug on the form equals
  the slug of a service in the list, and the submission proceeds to an update of
  that row, not to an insert.
\<close>

theorem edit_submission_sends_update:
  "living_room \<in> set (services editing_living_room) \<and>
   se_slug living_room = trim (serviceSlug editing_living_room) \<and>
   new_calls editing_living_room (handleServiceSubmit env_ok editing_living_room)
     = [Update ''services''
          [(''title'', Str ''Living room''), (''slug'', Str ''living-room''),
           (''description'', Str ''Ceilings'')] ''id'' (Str ''s1''),
        Select ''services'' ''created_at'' False]"
proof -
  have tr: "trim ''Living room'' = ''Living room''" "trim ''living-room'' = ''living-room''"
    "trim ''Ceilings'' = ''Ceilings''" "trim [] = []"
    by (simp_all add: trim_def is_ws_def)
  have f: "serviceTitle editing_living_room = ''Living room''"
    "serviceSlug editing_living_room = ''living-room''"
    "serviceShortDesc editing_living_room = []"
    "serviceDescription editing_living_room = ''Ceilings''"
    "serviceIcon editing_living_room = []" "services editing_living_room = [living_room]"
    "calls editing_living_room = []" "editingService editing_living_room = Some ''s1''"
    by (simp_all add: editing_living_room_def editService_def living_room_def initial_def
        or_empty_def)
  have valid: "serviceSchema_parse (service_form editing_living_room) =
           Inr \<lparr>sv_title = ''Living room'', sv_slug = ''living-room'',
                sv_short_description = None, sv_description = ''Ceilings'', sv_icon = None\<rparr>"
    using service_form_accepted [of editing_living_room]
    by (simp add: f tr or_undefined_def)
  have ref: "refusal env_ok k qs = None" for k qs
    by (simp add: refusal_None_iff env_ok_def)
  have "calls (handleServiceSubmit env_ok editing_living_room) =
      calls editing_living_room @
      service_requests env_ok editing_living_room
        \<lparr>sv_title = ''Living room'', sv_slug = ''living-room'',
         sv_short_description = None, sv_description = ''Ceilings'', sv_icon = None\<rparr> @
      [Select ''services'' ''created_at'' False]"
    using service_try_run(2) [OF valid, of env_ok]
    by (simp add: handleServiceSubmit_run ref sent_all)
  then have "new_calls editing_living_room (handleServiceSubmit env_ok editing_living_room) =
      service_requests env_ok editing_living_room
        \<lparr>sv_title = ''Living room'', sv_slug = ''living-room'',
         sv_short_description = None, sv_description = ''Ceilings'', sv_icon = None\<rparr> @
      [Select ''services'' ''created_at'' False]"
    by (rule new_calls_append)
  then show ?thesis
    by (simp add: service_requests_def editing_def serviceData_def f tr living_room_def)
qed

text \<open>
  C6, amended: a service submission whose fields satisfy the length bounds of
  \<open>serviceSchema\<close> is accepted by local validation, whatever services exist
  (nothing is assumed of the list; no uniqueness check is made). Its first request
  is the write of the service row, carrying the trimmed slug: the insert when no
  service is being edited, the update of the edited row otherwise. If the backend
  refuses that request with message \<open>m\<close>, nothing else is sent and the one notice
  shown is the error \<open>m\<close>.
\<close>

theorem service_submission_reaches_backend:
  assumes "1 \<le> length (trim (serviceTitle w))" and "length (trim (serviceTitle w)) \<le> 200"
      and "1 \<le> length (trim (serviceSlug w))" and "length (trim (serviceSlug w)) \<le> 200"
      and "length (trim (serviceShortDesc w)) \<le> 500"
      and "1 \<le> length (trim (serviceDescription w))"
      and "length (trim (serviceIcon w)) \<le> 100"
  shows "\<exists>v. serviceSchema_parse (service_form w) = Inr v \<and>
           column ''slug'' (serviceData v) = Some (Str (trim (serviceSlug w))) \<and>
           take 1 (new_calls w (handleServiceSubmit E w)) =
             [case editing (editingService w) of
                None \<Rightarrow> InsertReturning ''services'' (serviceData v)
              | Some edited \<Rightarrow> Update ''services'' (serviceData v) ''id'' (Str edited)] \<and>
           (\<forall>m. error_of E (length (calls w)) = Some m \<longrightarrow>
              new_calls w (handleServiceSubmit E w) =
                [case editing (editingService w) of
                   None \<Rightarrow> InsertReturning ''services'' (serviceData v)
                 | Some edited \<Rightarrow> Update ''services'' (serviceData v) ''id'' (Str edited)] \<and>
              new_toasts w (handleServiceSubmit E w) = [Toast ''Error'' (Text m) True])"
proof -
  define v where "v = \<lparr>sv_title = trim (serviceTitle w),
                sv_slug = trim (serviceSlug w),
                sv_short_description = or_undefined (trim (serviceShortDesc w)),
                sv_description = trim (serviceDescription w),
                sv_icon = or_undefined (trim (serviceIcon w))\<rparr>"
  define c where "c = length (calls w)"
  define q where "q = (case editing (editingService w) of
                None \<Rightarrow> InsertReturning ''services'' (serviceData v)
              | Some edited \<Rightarrow> Update ''services'' (serviceData v) ''id'' (Str edited))"
  have valid: "serviceSchema_parse (service_form w) = Inr v"
    unfolding v_def by (rule service_form_accepted [OF assms])
  have slug: "column ''slug'' (serviceData v) = Some (Str (trim (serviceSlug w)))"
    by (simp add: column_def serviceData_def v_def)
  obtain rest where R: "service_requests E w v = q # rest"
    using service_requests_first [of E w v] by (auto simp: q_def)
  define S where "S = (if refusal E c (service_requests E w v) = None
            then [Select ''services'' ''created_at'' False] else [])"
  have cs: "calls (handleServiceSubmit E w) =
              calls w @ sent_until_error E c (service_requests E w v) @ S"
    using service_try_run(2) [OF valid] by (simp add: handleServiceSubmit_run c_def S_def)
  have new: "new_calls w (handleServiceSubmit E w) = sent_until_error E c (service_requests E w v) @ S"
    by (rule new_calls_append [OF cs])
  have first: "take 1 (new_calls w (handleServiceSubmit E w)) = [q]"
    unfolding new R by simp
  have refused: "new_calls w (handleServiceSubmit E w) = [q] \<and>
                 new_toasts w (handleServiceSubmit E w) = [Toast ''Error'' (Text m) True]"
    if m: "error_of E (length (calls w)) = Some m" for m
  proof -
    have ref: "refusal E c (service_requests E w v) = Some m"
      using m by (simp add: R c_def)
    have sent: "sent_until_error E c (service_requests E w v) = [q]"
      using m by (simp add: R c_def)
    have tr: "fst (service_try E w) = Some (BackendError m)"
      using service_try_run(1) [OF valid, of E] ref by (simp add: c_def)
    then have "toasts (snd (service_try E w)) = toasts w"
      using service_try_run(3) [OF valid, of E] by simp
    then have "toasts (handleServiceSubmit E w) = toasts w @ [Toast ''Error'' (Text m) True]"
      using tr by (simp add: handleServiceSubmit_run)
    then have "new_toasts w (handleServiceSubmit E w) = [Toast ''Error'' (Text m) True]"
      by (rule new_toasts_append)
    moreover have "new_calls w (handleServiceSubmit E w) = [q]"
      unfolding new sent S_def using ref by simp
    ultimately show ?thesis by simp
  qed
  show ?thesis
    using valid slug first refused unfolding q_def by blast
qed

text \<open>
  Witness for C6: a new service whose slug is the one of a service in the list; the
  backend refuses the insert and its message is shown.
\<close>

theorem service_submission_reaches_backend_witness:
  "1 \<le> length (trim (serviceTitle duplicate_slug)) \<and>
   length (trim (serviceTitle duplicate_slug)) \<le> 200 \<and>
   1 \<le> length (trim (serviceSlug duplicate_slug)) \<and>
   length (trim (serviceSlug duplicate_slug)) \<le> 200 \<and>
   length (trim (serviceShortDesc duplicate_slug)) \<le> 500 \<and>
   1 \<le> length (trim (serviceDescription duplicate_slug)) \<and>
   length (trim (serviceIcon duplicate_slug)) \<le> 100 \<and>
   living_room \<in> set (services duplicate_slug) \<and>
   se_slug living_room = trim (serviceSlug duplicate_slug) \<and>
   new_toasts duplicate_slug
     (handleServiceSubmit (env_fail 0 ''duplicate key value'') duplicate_slug)
     = [Toast ''Error'' (Text ''duplicate key value'') True]"
proof -
  have tr: "trim ''Lounge'' = ''Lounge''" "trim ''living-room'' = ''living-room''"
    "trim ''Ceilings'' = ''Ceilings''" "trim [] = []"
    by (simp_all add: trim_def is_ws_def)
  have f: "serviceTitle duplicate_slug = ''Lounge''" "serviceSlug duplicate_slug = ''living-room''"
    "serviceShortDesc duplicate_slug = []" "serviceDescription duplicate_slug = ''Ceilings''"
    "serviceIcon duplicate_slug = []" "services duplicate_slug = [living_room]"
    "calls duplicate_slug = []"
    by (simp_all add: duplicate_slug_def initial_def)
  have h1: "1 \<le> length (trim (serviceTitle duplicate_slug))"
    and h2: "length (trim (serviceTitle duplicate_slug)) \<le> 200"
    and h3: "1 \<le> length (trim (serviceSlug duplicate_slug))"
    and h4: "length (trim (serviceSlug duplicate_slug)) \<le> 200"
    and h5: "length (trim (serviceShortDesc duplicate_slug)) \<le> 500"
    and h6: "1 \<le> length (trim (serviceDescription duplicate_slug))"
    and h7: "length (trim (serviceIcon duplicate_slug)) \<le> 100"
    by (simp_all add: f tr)
  have e: "error_of (env_fail 0 ''duplicate key value'') (length (calls duplicate_slug))
             = Some ''duplicate key value''"
    by (simp add: env_fail_def env_ok_def f)
  have dup: "living_room \<in> set (services duplicate_slug)"
    "se_slug living_room = trim (serviceSlug duplicate_slug)"
    by (simp_all add: f tr living_room_def)
  from service_submission_reaches_backend [OF h1 h2 h3 h4 h5 h6 h7,
      of "env_fail 0 ''duplicate key value''"] e
  have "new_toasts duplicate_slug
     (handleServiceSubmit (env_fail 0 ''duplicate key value'') duplicate_slug)
     = [Toast ''Error'' (Text ''duplicate key value'') True]"
    by blast
  with h1 h2 h3 h4 h5 h6 h7 dup show ?thesis by blast
qed

section \<open>The submitting flags\<close>

text \<open>
  Each handler touches its own flag only; the refreshes, deletions and the edit
  events touch none.
\<close>

lemma fetch_flags:
  "submitting (fetchProjects E w) = submitting w"
  "serviceSubmitting (fetchProjects E w) = serviceSubmitting w"
  "gallerySubmitting (fetchProjects E w) = gallerySubmitting w"
  "submitting (fetchServices E w) = submitting w"
  "serviceSubmitting (fetchServices E w) = serviceSubmitting w"
  "gallerySubmitting (fetchServices E w) = gallerySubmitting w"
  "submitting (fetchGalleryItems E w) = submitting w"
  "serviceSubmitting (fetchGalleryItems E w) = serviceSubmitting w"
  "gallerySubmitting (fetchGalleryItems E w) = gallerySubmitting w"
  by (simp_all add: fetchProjects_def fetchServices_def fetchGalleryItems_def send_def
      show_toast_def Let_def split: option.splits)

lemma project_try_flags:
  "serviceSubmitting (snd (project_try E w)) = serviceSubmitting w"
  "gallerySubmitting (snd (project_try E w)) = gallerySubmitting w"
  by (simp_all add: project_try_def Let_def send_def upload_files_refines fetch_flags
      show_toast_def split: option.splits sum.splits)

lemma service_try_flags:
  "submitting (snd (service_try E w)) = submitting w"
  "gallerySubmitting (snd (service_try E w)) = gallerySubmitting w"
  by (simp_all add: service_try_def Let_def send_def upload_files_refines fetch_flags
      cancelEditService_def show_toast_def split: option.splits sum.splits)

lemma gallery_try_flags:
  "submitting (snd (gallery_try E w)) = submitting w"
  "serviceSubmitting (snd (gallery_try E w)) = serviceSubmitting w"
  by (simp_all add: gallery_try_def Let_def send_def upload_gallery_images_refines fetch_flags
      show_toast_def split: option.splits sum.splits)

lemma handler_flags:
  "\<not> submitting (handleSubmit E w)"
  "serviceSubmitting (handleSubmit E w) = serviceSubmitting w"
  "gallerySubmitting (handleSubmit E w) = gallerySubmitting w"
  "submitting (handleServiceSubmit E w) = submitting w"
  "\<not> serviceSubmitting (handleServiceSubmit E w)"
  "gallerySubmitting (handleServiceSubmit E w) = gallerySubmitting w"
  "submitting (handleGallerySubmit E w) = submitting w"
  "serviceSubmitting (handleGallerySubmit E w) = serviceSubmitting w"
  using project_try_flags [of E w] service_try_flags [of E w] gallery_try_flags [of E w]
  by (auto simp add: handleSubmit_def handleServiceSubmit_def handleGallerySubmit_def
      show_toast_def Let_def split: prod.splits option.splits)

lemma gallery_flag_after:
  "\<not> gallery_returns_early w \<Longrightarrow> \<not> gallerySubmitting (handleGallerySubmit E w)"
  "gallery_returns_early w \<Longrightarrow>
     gallerySubmitting (handleGallerySubmit E w) = gallerySubmitting w"
  by (auto simp add: gallery_returns_early_def handleGallerySubmit_def show_toast_def Let_def
      split: prod.splits option.splits)

lemma delete_flags:
  "idle w \<Longrightarrow> idle (deleteProject E c i w)"
  "idle w \<Longrightarrow> idle (deleteService E c i w)"
  "idle w \<Longrightarrow> idle (deleteGalleryItem E c i u w)"
  by (simp_all add: idle_def deleteProject_def deleteService_def deleteGalleryItem_def
      send_def show_toast_def Let_def fetch_flags split: option.splits)

lemma reachable_idle: "w \<in> reachable \<Longrightarrow> idle w"
proof (induction rule: reachable.induct)
  case mounted
  show ?case by (simp add: idle_def initial_def)
next
  case (input w)
  then show ?case by (simp add: idle_def)
next
  case (project_submit w E)
  then show ?case by (simp add: idle_def handler_flags)
next
  case (service_submit w E)
  then show ?case by (simp add: idle_def handler_flags)
next
  case (gallery_submit w E)
  then show ?case
    by (cases "gallery_returns_early w") (simp_all add: idle_def handler_flags gallery_flag_after)
next
  case (project_delete w E confirmed i)
  then show ?case by (simp add: delete_flags)
next
  case (service_delete w E confirmed i)
  then show ?case by (simp add: delete_flags)
next
  case (gallery_delete w E confirmed i u)
  then show ?case by (simp add: delete_flags)
next
  case (edit w s)
  then show ?case by (simp add: idle_def editService_def)
next
  case (cancel w)
  then show ?case by (simp add: idle_def cancelEditService_def)
next
  case (projects_fetched w E)
  then show ?case by (simp add: idle_def fetch_flags)
next
  case (services_fetched w E)
  then show ?case by (simp add: idle_def fetch_flags)
next
  case (gallery_fetched w E)
  then show ?case by (simp add: idle_def fetch_flags)
qed

text \<open>
  C10: whatever the backend answers and whatever the form holds, \<open>submitting\<close> is false
  after \<open>handleSubmit\<close> and \<open>serviceSubmitting\<close> is false after
  \<open>handleServiceSubmit\<close>, whatever they were before: both handlers clear their flag
  in \<open>finally\<close>. So does \<open>handleGallerySubmit\<close> on every run that enters its
  \<open>try\<close>, whatever the flag was before. On its two early returns it leaves the flag
  as it found it; and in every state the page can be in when a handler starts, the
  three flags are false, so that \<open>gallerySubmitting\<close> is false after every run of
  \<open>handleGallerySubmit\<close> from such a state, early return included.
\<close>

theorem submitting_false_when_done:
  "\<not> submitting (handleSubmit E w) \<and>
   \<not> serviceSubmitting (handleServiceSubmit E w) \<and>
   (\<not> gallery_returns_early w \<longrightarrow> \<not> gallerySubmitting (handleGallerySubmit E w)) \<and>
   (gallery_returns_early w \<longrightarrow>
      gallerySubmitting (handleGallerySubmit E w) = gallerySubmitting w) \<and>
   (w \<in> reachable \<longrightarrow>
      \<not> submitting w \<and> \<not> serviceSubmitting w \<and> \<not> gallerySubmitting w \<and>
      \<not> gallerySubmitting (handleGallerySubmit E w))"
proof -
  have "\<not> gallerySubmitting (handleGallerySubmit E w)" if "w \<in> reachable"
    using reachable_idle [OF that] gallery_flag_after [of w E]
    by (cases "gallery_returns_early w") (simp_all add: idle_def)
  then show ?thesis
    using handler_flags(1,5) [of E w] gallery_flag_after [of w E] reachable_idle [of w]
    by (auto simp: idle_def)
qed

text \<open>
  Witness for C10: a gallery batch of three images whose second upload is refused,
  started with the flag set, ends with the flag cleared; the mounted page, where no
  image is selected, takes the early return and the flag stays false.
\<close>

theorem submitting_false_when_done_witness:
  "\<not> gallery_returns_early (three_images\<lparr>gallerySubmitting := True\<rparr>) \<and>
   \<not> gallerySubmitting
       (handleGallerySubmit (env_fail 2 ''upload failed'')
          (three_images\<lparr>gallerySubmitting := True\<rparr>)) \<and>
   gallery_returns_early initial \<and>
   gallerySubmitting (handleGallerySubmit env_ok initial) = gallerySubmitting initial \<and>
   initial \<in> reachable \<and>
   \<not> gallerySubmitting (handleGallerySubmit env_ok initial)"
proof -
  have h1: "\<not> gallery_returns_early (three_images\<lparr>gallerySubmitting := True\<rparr>)"
    by (simp add: gallery_returns_early_def three_images_def initial_def)
  have h2: "gallery_returns_early initial"
    by (simp add: gallery_returns_early_def initial_def)
  have h3: "initial \<in> reachable"
    by (rule reachable.mounted)
  from submitting_false_when_done
         [of "env_fail 2 ''upload failed''" "three_images\<lparr>gallerySubmitting := True\<rparr>"]
       submitting_false_when_done [of env_ok initial] h1 h2 h3
  show ?thesis by blast
qed

end
